theory Spec2Isabelle
  imports Complex_Main
begin

section \<open>Numbers and arrays\<close>

text \<open>
  The solver of \<^verbatim>\<open>pycalphad/core/minimizer.pyx\<close> works on C doubles held in numpy
  arrays. A double is modelled by a real number (no rounding, no overflow); a one-dimensional
  array by the list of its entries, a two-dimensional array by the list of its rows. An
  array of shape (n, 1) is modelled by the list of its n entries and an array of shape
  (1, 1) by its single entry.

  A numpy division does not raise when the divisor is zero: it yields an infinity or a NaN.
  The quantities of \<^verbatim>\<open>extract_equilibrium_solution\<close> that come out of such a division, the
  relative changes and the tracker that collects them, are therefore values of the type
  \<open>npfloat\<close>, which adds these two outcomes to the reals. All of them are absolute values,
  so one infinity is enough. Every other number of the model is a real: the evaluators and
  the linear algebra are taken to deliver numbers.
\<close>

type_synonym vec = "real list"
type_synonym mat = "real list list"

datatype npfloat = Fin real | PInf | NaN

text \<open>\<open>a < b\<close> on doubles: false as soon as one side is a NaN.\<close>

fun np_less :: "npfloat \<Rightarrow> npfloat \<Rightarrow> bool" where
  "np_less (Fin a) (Fin b) = (a < b)"
| "np_less (Fin a) PInf = True"
| "np_less PInf b = False"
| "np_less NaN b = False"
| "np_less (Fin a) NaN = False"

text \<open>Python's \<^verbatim>\<open>max(a, b)\<close>: b when \<open>b > a\<close> holds, else a; a NaN on the right is dropped.\<close>

definition py_max :: "npfloat \<Rightarrow> npfloat \<Rightarrow> npfloat" where
  "py_max a b = (if np_less a b then b else a)"

text \<open>\<^verbatim>\<open>abs(a / b)\<close> on numpy doubles: infinite for \<open>a \<noteq> 0 = b\<close>, a NaN for \<open>0 / 0\<close>.\<close>

definition np_abs_div :: "real \<Rightarrow> real \<Rightarrow> npfloat" where
  "np_abs_div a b = (if b \<noteq> 0 then Fin \<bar>a / b\<bar> else if a = 0 then NaN else PInf)"

text \<open>\<^verbatim>\<open>np.maximum\<close>, which hands a NaN on, and \<^verbatim>\<open>np.isnan\<close>.\<close>

fun np_maximum :: "npfloat \<Rightarrow> npfloat \<Rightarrow> npfloat" where
  "np_maximum NaN b = NaN"
| "np_maximum a NaN = NaN"
| "np_maximum a b = (if np_less a b then b else a)"

fun np_isnan :: "npfloat \<Rightarrow> bool" where
  "np_isnan NaN = True"
| "np_isnan a = False"

subsection \<open>Exceptions\<close>

text \<open>
  Every exception the solver can raise is a value. \<open>GibbsPhaseRule\<close> is the
  \<^verbatim>\<open>ValueError('Conditions do not obey Gibbs Phase Rule')\<close> of line 365;
  \<open>NumpyValueError\<close> is the ValueError numpy raises for operands that do not broadcast
  and for the maximum of an empty array; \<open>ZeroDivisionError\<close> is raised by the checked
  division of two C doubles; \<open>LinAlgError\<close> by the routines of \<^verbatim>\<open>np.linalg\<close>.
  An exception inside one of the helper functions is taken to propagate to the caller of
  \<^verbatim>\<open>find_solution\<close>; this is an assumption of the model, and a run in which a compiled
  helper leaves its exception pending and carries on is not part of it.
\<close>

datatype error = GibbsPhaseRule | IndexError | NumpyValueError | ZeroDivisionError | LinAlgError

definition and_then :: "error + 'a \<Rightarrow> ('a \<Rightarrow> error + 'b) \<Rightarrow> error + 'b" where
  "and_then m f = (case m of Inl e \<Rightarrow> Inl e | Inr v \<Rightarrow> f v)"

text \<open>A \<^verbatim>\<open>for\<close> loop over the list \<open>is\<close> whose body may raise.\<close>

fun for_each :: "'i list \<Rightarrow> ('i \<Rightarrow> 's \<Rightarrow> error + 's) \<Rightarrow> 's \<Rightarrow> error + 's" where
  "for_each [] body s = Inr s"
| "for_each (i # is) body s = and_then (body i s) (for_each is body)"

subsection \<open>Bounds-checked array access\<close>

text \<open>
  Indices are natural numbers, so the wrap-around of a negative index is not part of the
  model. Reading or writing outside an array raises IndexError, for a numpy array as for a
  typed memoryview (Cython checks bounds unless told otherwise).
\<close>

definition get1 :: "'a list \<Rightarrow> nat \<Rightarrow> error + 'a" where
  "get1 xs i = (if i < length xs then Inr (xs ! i) else Inl IndexError)"

definition set1 :: "'a list \<Rightarrow> nat \<Rightarrow> 'a \<Rightarrow> error + 'a list" where
  "set1 xs i v = (if i < length xs then Inr (xs[i := v]) else Inl IndexError)"

definition add1 :: "vec \<Rightarrow> nat \<Rightarrow> real \<Rightarrow> error + vec" where
  "add1 xs i v = (if i < length xs then Inr (xs[i := xs ! i + v]) else Inl IndexError)"

definition sub1 :: "vec \<Rightarrow> nat \<Rightarrow> real \<Rightarrow> error + vec" where
  "sub1 xs i v = (if i < length xs then Inr (xs[i := xs ! i - v]) else Inl IndexError)"

definition get2 :: "mat \<Rightarrow> nat \<Rightarrow> nat \<Rightarrow> error + real" where
  "get2 m i j = (if i < length m \<and> j < length (m ! i) then Inr (m ! i ! j) else Inl IndexError)"

definition set2 :: "mat \<Rightarrow> nat \<Rightarrow> nat \<Rightarrow> real \<Rightarrow> error + mat" where
  "set2 m i j v =
     (if i < length m \<and> j < length (m ! i) then Inr (m[i := (m ! i)[j := v]]) else Inl IndexError)"

definition add2 :: "mat \<Rightarrow> nat \<Rightarrow> nat \<Rightarrow> real \<Rightarrow> error + mat" where
  "add2 m i j v =
     (if i < length m \<and> j < length (m ! i) then Inr (m[i := (m ! i)[j := m ! i ! j + v]])
      else Inl IndexError)"

definition sub2 :: "mat \<Rightarrow> nat \<Rightarrow> nat \<Rightarrow> real \<Rightarrow> error + mat" where
  "sub2 m i j v =
     (if i < length m \<and> j < length (m ! i) then Inr (m[i := (m ! i)[j := m ! i ! j - v]])
      else Inl IndexError)"

text \<open>\<^verbatim>\<open>np.zeros(n)\<close>, \<^verbatim>\<open>np.zeros((r, c))\<close> and the second extent of a two-dimensional array.\<close>

definition zeros :: "nat \<Rightarrow> vec" where
  "zeros n = replicate n 0"

definition zeros2 :: "nat \<Rightarrow> nat \<Rightarrow> mat" where
  "zeros2 r c = replicate r (replicate c 0)"

definition ncols :: "mat \<Rightarrow> nat" where
  "ncols m = (case m of [] \<Rightarrow> 0 | r # _ \<Rightarrow> length r)"

text \<open>
  \<^verbatim>\<open>m[r0:r0+h, c0:c0+w] = block\<close> for a block of shape (h, w) that fits into \<open>m\<close>: the
  entries under the block are replaced, the others and the shape of \<open>m\<close> are kept.
\<close>

definition set_block :: "mat \<Rightarrow> nat \<Rightarrow> nat \<Rightarrow> mat \<Rightarrow> mat" where
  "set_block m r0 c0 block =
     map (\<lambda>i. map (\<lambda>j. if r0 \<le> i \<and> i < r0 + length block
                          \<and> c0 \<le> j \<and> j < c0 + length (block ! (i - r0))
                        then block ! (i - r0) ! (j - c0) else m ! i ! j)
                 [0..<length (m ! i)])
         [0..<length m]"

text \<open>The maximum of a non-empty array; numpy raises ValueError for an empty one.\<close>

definition np_max :: "vec \<Rightarrow> error + real" where
  "np_max xs = (case xs of [] \<Rightarrow> Inl NumpyValueError | y # ys \<Rightarrow> Inr (fold max ys y))"

definition np_max_f :: "npfloat list \<Rightarrow> error + npfloat" where
  "np_max_f xs = (case xs of [] \<Rightarrow> Inl NumpyValueError | y # ys \<Rightarrow> Inr (fold (\<lambda>b a. np_maximum a b) ys y))"

text \<open>
  An elementwise operation on two one-dimensional arrays: equal lengths, or one operand
  of length one, which is then repeated; anything else does not broadcast.
\<close>

definition np_elementwise :: "(real \<Rightarrow> real \<Rightarrow> 'c) \<Rightarrow> vec \<Rightarrow> vec \<Rightarrow> error + 'c list" where
  "np_elementwise f a b =
     (if length a = length b then Inr (map2 f a b)
      else if length a = 1 then Inr (map (f (hd a)) b)
      else if length b = 1 then Inr (map (\<lambda>u. f u (hd b)) a)
      else Inl NumpyValueError)"

text \<open>The values stored by \<^verbatim>\<open>target[...] = v\<close> into a slice of \<open>n\<close> entries.\<close>

definition np_assign :: "nat \<Rightarrow> vec \<Rightarrow> error + vec" where
  "np_assign n v =
     (if length v = n then Inr v
      else if length v = 1 then Inr (replicate n (hd v))
      else Inl NumpyValueError)"

text \<open>\<^verbatim>\<open>np.dot\<close> of two arrays of one length.\<close>

definition np_dot :: "vec \<Rightarrow> vec \<Rightarrow> real" where
  "np_dot a b = sum_list (map2 (*) a b)"

section \<open>Phase records and composition sets\<close>

text \<open>
  Modelled from the spec: the PhaseEvaluator capability set of section 6 of the
  specification (\<^verbatim>\<open>pycalphad.core.phase_rec\<close> is not among the sources). Each evaluator
  fills a buffer that its caller owns; it is given here by the value it stores at each
  position of that buffer, as a function of the degrees of freedom \<open>x\<close>.
\<close>

record PhaseRecord =
  phase_dof :: nat
  num_internal_cons :: nat
  obj :: "vec \<Rightarrow> real"
  grad :: "vec \<Rightarrow> nat \<Rightarrow> real"
  hess :: "vec \<Rightarrow> nat \<Rightarrow> nat \<Rightarrow> real"
  mass_obj :: "vec \<Rightarrow> nat \<Rightarrow> real"
  mass_grad :: "vec \<Rightarrow> nat \<Rightarrow> nat \<Rightarrow> real"
  internal_cons_func :: "vec \<Rightarrow> nat \<Rightarrow> real"
  internal_cons_jac :: "vec \<Rightarrow> nat \<Rightarrow> nat \<Rightarrow> real"

text \<open>
  Modelled from the spec: a CompositionSet (\<^verbatim>\<open>pycalphad.core.composition_set\<close> is not
  among the sources) bundles a phase record with the phase amount \<open>NP\<close> and the vector
  \<open>dof\<close> of state variables followed by internal degrees of freedom.
\<close>

record CompositionSet =
  phase_record :: PhaseRecord
  NP :: real
  dof :: vec

text \<open>
  Modelled from the spec: \<^verbatim>\<open>MIN_SITE_FRACTION\<close> of \<^verbatim>\<open>pycalphad.core.constants\<close>, which
  section 6 of the specification gives as 1e-12.
\<close>

definition MIN_SITE_FRACTION :: real where
  "MIN_SITE_FRACTION = 1 / 10 ^ 12"

text \<open>
  The routines of \<^verbatim>\<open>np.linalg\<close> that the solver calls are parameters of the model;
  \<open>None\<close> stands for a raised LinAlgError.
\<close>

record linalg =
  linalg_solve :: "mat \<Rightarrow> vec \<Rightarrow> vec option"
  linalg_inv :: "mat \<Rightarrow> mat option"
  linalg_lstsq :: "mat \<Rightarrow> vec \<Rightarrow> vec option"

section \<open>The system of one phase (Eq. 41, Sundman 2015)\<close>

text \<open>
  \<^verbatim>\<open>compute_phase_matrix\<close> (lines 9-23). Both callers pass a zeroed \<open>phase_matrix\<close> of
  shape (d + k, d + k) and a Hessian of shape (S + d, S + d), for d internal degrees of
  freedom, k internal constraints and S state variables, so the three blocks fit.
\<close>

definition compute_phase_matrix :: "mat \<Rightarrow> mat \<Rightarrow> CompositionSet \<Rightarrow> nat \<Rightarrow> vec \<Rightarrow> mat" where
  "compute_phase_matrix phase_matrix hess_m compset num_statevars x =
     (let pr = phase_record compset;
          cons_jac_tmp = map (\<lambda>c. map (internal_cons_jac pr x c) [0..<num_statevars + phase_dof pr])
                             [0..<num_internal_cons pr];
          jac_y = map (drop num_statevars) cons_jac_tmp;
          m1 = set_block phase_matrix 0 0 (map (drop num_statevars) (drop num_statevars hess_m));
          m2 = set_block m1 (phase_dof pr) 0 jac_y;
          m3 = set_block m2 0 (phase_dof pr)
                 (map (\<lambda>j. map (\<lambda>c. jac_y ! c ! j) [0..<num_internal_cons pr]) [0..<phase_dof pr])
      in m3)"

text \<open>
  \<^verbatim>\<open>compute_phase_system\<close> (lines 26-58) returns the filled matrix and right-hand side
  together with its return value, the largest absolute constraint residual. All scratch
  arrays are allocated here with the extents the loops run over, and \<open>phase_rhs\<close> comes
  from the caller with d + k entries, so no access is out of bounds.
\<close>

definition compute_phase_system ::
  "mat \<Rightarrow> vec \<Rightarrow> CompositionSet \<Rightarrow> vec \<Rightarrow> vec \<Rightarrow> vec \<Rightarrow> error + (mat \<times> vec \<times> real)" where
  "compute_phase_system phase_matrix phase_rhs compset delta_statevars chemical_potentials x =
     (let pr = phase_record compset;
          num_statevars = length delta_statevars;
          num_components = length chemical_potentials;
          n = num_statevars + phase_dof pr;
          cons_tmp = map (internal_cons_func pr x) [0..<num_internal_cons pr];
          hess_tmp = map (\<lambda>i. map (hess pr x i) [0..<n]) [0..<n];
          grad_tmp = map (grad pr x) [0..<n];
          mass_jac_tmp = map (\<lambda>c. map (mass_grad pr x c) [0..<n]) [0..<num_components];
          phase_matrix' = compute_phase_matrix phase_matrix hess_tmp compset num_statevars x;
          rhs1 = fold (\<lambda>i rhs. rhs[i :=
                    fold (\<lambda>comp_idx r. r + chemical_potentials ! comp_idx
                                              * mass_jac_tmp ! comp_idx ! (num_statevars + i))
                      [0..<num_components]
                      (fold (\<lambda>sv_idx r. r - hess_tmp ! (num_statevars + i) ! sv_idx
                                              * delta_statevars ! sv_idx)
                         [0..<num_statevars]
                         (- grad_tmp ! (num_statevars + i)))])
                   [0..<phase_dof pr] phase_rhs;
          rhs2 = fold (\<lambda>cons_idx rhs. rhs[phase_dof pr + cons_idx := - cons_tmp ! cons_idx])
                   [0..<num_internal_cons pr] rhs1
      in and_then (np_max (map abs cons_tmp)) (\<lambda>r. Inr (phase_matrix', rhs2, r)))"

section \<open>The global system (Eq. 44, Sundman 2015)\<close>

text \<open>
  \<^verbatim>\<open>fill_equilibrium_system_for_phase\<close> (lines 61-182) adds the contribution of the
  composition set \<open>idx\<close>, which stands at position \<open>stable_idx\<close> of the active set, to the
  global matrix and right-hand side. The function is given in parts, in the order of the
  source. \<open>masses\<close> is the column \<^verbatim>\<open>masses[:, 0]\<close>.

  Lines 75-88: the condensed vectors \<open>c_G\<close>, \<open>c_statevars\<close> and \<open>c_component\<close>.
\<close>

definition condensed_c_G :: "mat \<Rightarrow> vec \<Rightarrow> nat \<Rightarrow> error + vec" where
  "condensed_c_G e_matrix grad_v num_statevars =
     for_each [0..<length e_matrix] (\<lambda>i.
       for_each [0..<ncols e_matrix] (\<lambda>j c_G.
         and_then (get2 e_matrix i j) (\<lambda>e.
         and_then (get1 grad_v (num_statevars + j)) (\<lambda>g.
         sub1 c_G i (e * g)))))
     (zeros (length e_matrix))"

definition condensed_c_statevars :: "mat \<Rightarrow> mat \<Rightarrow> nat \<Rightarrow> error + mat" where
  "condensed_c_statevars e_matrix hess_m num_statevars =
     for_each [0..<length e_matrix] (\<lambda>i.
       for_each [0..<ncols e_matrix] (\<lambda>j.
         for_each [0..<num_statevars] (\<lambda>statevar_idx c_statevars.
           and_then (get2 e_matrix i j) (\<lambda>e.
           and_then (get2 hess_m (num_statevars + j) statevar_idx) (\<lambda>h.
           sub2 c_statevars i statevar_idx (e * h))))))
     (zeros2 (length e_matrix) num_statevars)"

definition condensed_c_component :: "mat \<Rightarrow> mat \<Rightarrow> nat \<Rightarrow> nat \<Rightarrow> error + mat" where
  "condensed_c_component e_matrix mass_jac num_statevars num_components =
     for_each [0..<num_components] (\<lambda>comp_idx.
       for_each [0..<length e_matrix] (\<lambda>i.
         for_each [0..<ncols e_matrix] (\<lambda>j c_component.
           and_then (get2 mass_jac comp_idx (num_statevars + j)) (\<lambda>m.
           and_then (get2 e_matrix i j) (\<lambda>e.
           add2 c_component comp_idx i (m * e))))))
     (zeros2 num_components (length e_matrix))"

text \<open>Lines 99-110: the row \<open>stable_idx\<close> of the matrix, the row of this phase.\<close>

definition fill_phase_row ::
  "mat \<Rightarrow> vec \<Rightarrow> vec \<Rightarrow> nat list \<Rightarrow> nat list \<Rightarrow> nat list \<Rightarrow> nat \<Rightarrow> error + mat" where
  "fill_phase_row equilibrium_matrix grad_v masses free_chemical_potential_indices
       free_statevar_indices free_stable_compset_indices stable_idx =
     and_then
       (for_each [0..<length free_chemical_potential_indices] (\<lambda>i m.
          let chempot_idx = free_chemical_potential_indices ! i in
          and_then (get1 masses chempot_idx) (\<lambda>v. set2 m stable_idx (0 + i) v))
        equilibrium_matrix)
       (\<lambda>m1.
          let free_variable_column_offset =
                length free_chemical_potential_indices + length free_stable_compset_indices in
          for_each [0..<length free_statevar_indices] (\<lambda>i m.
            let statevar_idx = free_statevar_indices ! i in
            and_then (get1 grad_v statevar_idx) (\<lambda>g.
            set2 m stable_idx (free_variable_column_offset + i) (- g)))
          m1)"

text \<open>
  The body shared by lines 116-142 and lines 147-170: the contribution of the component
  \<open>component_idx\<close> to the row \<open>row\<close> of the matrix and of the right-hand side. The two
  places differ in one operator: the column of this phase is assigned in the rows of the
  fixed components (line 129) and added to in the row of the system amount (line 160),
  which \<open>accumulate\<close> tells apart. The extents \<^verbatim>\<open>c_component.shape[1]\<close> and
  \<^verbatim>\<open>c_G.shape[0]\<close> are both the number of rows of \<open>e_matrix\<close>, here \<open>length c_G\<close>.
\<close>

definition fill_component_row ::
  "bool \<Rightarrow> nat \<Rightarrow> nat \<Rightarrow> vec \<Rightarrow> mat \<Rightarrow> vec \<Rightarrow> mat \<Rightarrow> mat \<Rightarrow> vec \<Rightarrow> nat list \<Rightarrow> nat list
     \<Rightarrow> nat list \<Rightarrow> nat \<Rightarrow> nat \<Rightarrow> mat \<times> vec \<Rightarrow> error + (mat \<times> vec)" where
  "fill_component_row accumulate row component_idx masses mass_jac c_G c_statevars c_component
       phase_amt free_chemical_potential_indices free_statevar_indices
       free_stable_compset_indices idx num_statevars state =
     and_then
       (for_each [0..<length free_chemical_potential_indices] (\<lambda>i.
          let chempot_idx = free_chemical_potential_indices ! i in
          for_each [0..<length c_G] (\<lambda>j (m, rhs).
            and_then (get1 phase_amt idx) (\<lambda>pa.
            and_then (get2 mass_jac component_idx (num_statevars + j)) (\<lambda>mj.
            and_then (get2 c_component chempot_idx j) (\<lambda>cc.
            and_then (add2 m row (0 + i) (pa * mj * cc)) (\<lambda>m'. Inr (m', rhs)))))))
        state)
       (\<lambda>state1.
     and_then
       (for_each [0..<length free_stable_compset_indices] (\<lambda>i (m, rhs).
          let compset_idx = free_stable_compset_indices ! i in
          if compset_idx = idx
          then and_then (get1 masses component_idx) (\<lambda>v.
               and_then ((if accumulate then add2 else set2) m row
                           (length free_chemical_potential_indices + i) v) (\<lambda>m'. Inr (m', rhs)))
          else Inr (m, rhs))
        state1)
       (\<lambda>state2.
     and_then
       (for_each [0..<length free_statevar_indices] (\<lambda>i.
          let statevar_idx = free_statevar_indices ! i in
          for_each [0..<length c_statevars] (\<lambda>j (m, rhs).
            and_then (get1 phase_amt idx) (\<lambda>pa.
            and_then (get2 mass_jac component_idx (num_statevars + j)) (\<lambda>mj.
            and_then (get2 c_statevars j statevar_idx) (\<lambda>cs.
            and_then (add2 m row (length free_chemical_potential_indices
                                    + length free_stable_compset_indices + i) (pa * mj * cs))
              (\<lambda>m'. Inr (m', rhs)))))))
        state2)
       (\<lambda>state3.
     for_each [0..<length c_G] (\<lambda>j (m, rhs).
       and_then (get1 phase_amt idx) (\<lambda>pa.
       and_then (get2 mass_jac component_idx (num_statevars + j)) (\<lambda>mj.
       and_then (get1 c_G j) (\<lambda>cg.
       and_then (add1 rhs row (- pa * mj * cg)) (\<lambda>rhs'. Inr (m, rhs'))))))
     state3)))"

text \<open>
  Lines 178-182: the term that the fixed chemical potential \<open>chempot_idx\<close>, of value \<open>mu\<close>,
  takes from the right-hand side of the row of the prescribed element at position
  \<open>fixed_component_idx\<close>.
\<close>

definition fixed_potential_element_term ::
  "mat \<Rightarrow> mat \<Rightarrow> vec \<Rightarrow> nat list \<Rightarrow> nat \<Rightarrow> nat \<Rightarrow> nat \<Rightarrow> nat \<Rightarrow> nat \<Rightarrow> real \<Rightarrow> nat \<Rightarrow> vec
     \<Rightarrow> error + vec" where
  "fixed_potential_element_term mass_jac c_component phase_amt prescribed_element_indices
       component_row_offset c_component_cols idx num_statevars chempot_idx mu
       fixed_component_idx equilibrium_rhs =
     and_then (get1 prescribed_element_indices fixed_component_idx) (\<lambda>component_idx.
     for_each [0..<c_component_cols] (\<lambda>j rhs.
       and_then (get1 phase_amt idx) (\<lambda>pa.
       and_then (get2 mass_jac component_idx (num_statevars + j)) (\<lambda>mj.
       and_then (get2 c_component chempot_idx j) (\<lambda>cc.
       sub1 rhs (component_row_offset + fixed_component_idx) (pa * mu * mj * cc)))))
     equilibrium_rhs)"

text \<open>Lines 175-182: the terms of the fixed chemical potential at position \<open>i\<close>.\<close>

definition fixed_potential_terms ::
  "vec \<Rightarrow> mat \<Rightarrow> mat \<Rightarrow> vec \<Rightarrow> vec \<Rightarrow> nat list \<Rightarrow> nat list \<Rightarrow> nat \<Rightarrow> nat \<Rightarrow> nat \<Rightarrow> nat \<Rightarrow> nat
     \<Rightarrow> nat \<Rightarrow> vec \<Rightarrow> error + vec" where
  "fixed_potential_terms masses mass_jac c_component chemical_potentials phase_amt
       fixed_chemical_potential_indices prescribed_element_indices num_fixed_components
       component_row_offset c_component_cols idx num_statevars i equilibrium_rhs =
     (let chempot_idx = fixed_chemical_potential_indices ! i in
      and_then (get1 masses chempot_idx) (\<lambda>mass.
      and_then (get1 chemical_potentials chempot_idx) (\<lambda>mu.
      and_then (sub1 equilibrium_rhs idx (mass * mu)) (\<lambda>rhs.
      for_each [0..<num_fixed_components]
        (fixed_potential_element_term mass_jac c_component phase_amt
           prescribed_element_indices component_row_offset c_component_cols idx
           num_statevars chempot_idx mu)
        rhs))))"

text \<open>
  Lines 171-182: the energy of the phase and the terms of the fixed chemical potentials.
  The energy is stored at position \<open>idx\<close> of the right-hand side (lines 172 and 176).
\<close>

definition fill_phase_rhs ::
  "vec \<Rightarrow> real \<Rightarrow> vec \<Rightarrow> mat \<Rightarrow> mat \<Rightarrow> vec \<Rightarrow> vec \<Rightarrow> nat list \<Rightarrow> nat list \<Rightarrow> nat \<Rightarrow> nat
     \<Rightarrow> nat \<Rightarrow> nat \<Rightarrow> nat \<Rightarrow> error + vec" where
  "fill_phase_rhs equilibrium_rhs energy masses mass_jac c_component chemical_potentials
       phase_amt fixed_chemical_potential_indices prescribed_element_indices
       num_fixed_components component_row_offset c_component_cols idx num_statevars =
     and_then (set1 equilibrium_rhs idx energy)
       (for_each [0..<length fixed_chemical_potential_indices]
          (fixed_potential_terms masses mass_jac c_component chemical_potentials phase_amt
             fixed_chemical_potential_indices prescribed_element_indices
             num_fixed_components component_row_offset c_component_cols idx num_statevars))"

definition fill_equilibrium_system_for_phase ::
  "mat \<Rightarrow> vec \<Rightarrow> real \<Rightarrow> vec \<Rightarrow> mat \<Rightarrow> vec \<Rightarrow> mat \<Rightarrow> mat \<Rightarrow> vec \<Rightarrow> vec \<Rightarrow> nat list \<Rightarrow> nat list
     \<Rightarrow> nat list \<Rightarrow> nat list \<Rightarrow> nat list \<Rightarrow> vec \<Rightarrow> nat \<Rightarrow> nat \<Rightarrow> nat \<Rightarrow> error + (mat \<times> vec)" where
  "fill_equilibrium_system_for_phase equilibrium_matrix equilibrium_rhs energy grad_v hess_m
       masses mass_jac e_matrix chemical_potentials phase_amt free_chemical_potential_indices
       free_statevar_indices free_stable_compset_indices fixed_chemical_potential_indices
       prescribed_element_indices prescribed_elemental_amounts idx stable_idx num_statevars =
     (let num_components = length chemical_potentials;
          num_stable_phases = length free_stable_compset_indices;
          num_fixed_components = length prescribed_elemental_amounts
      in
      and_then (condensed_c_G e_matrix grad_v num_statevars) (\<lambda>c_G.
      and_then (condensed_c_statevars e_matrix hess_m num_statevars) (\<lambda>c_statevars.
      and_then (condensed_c_component e_matrix mass_jac num_statevars num_components)
        (\<lambda>c_component.
      and_then (fill_phase_row equilibrium_matrix grad_v masses free_chemical_potential_indices
                  free_statevar_indices free_stable_compset_indices stable_idx) (\<lambda>m1.
      let component_row_offset = num_stable_phases in
      and_then
        (for_each [0..<num_fixed_components] (\<lambda>fixed_component_idx state.
           and_then (get1 prescribed_element_indices fixed_component_idx) (\<lambda>component_idx.
           fill_component_row False (component_row_offset + fixed_component_idx) component_idx
             masses mass_jac c_G c_statevars c_component phase_amt
             free_chemical_potential_indices free_statevar_indices
             free_stable_compset_indices idx num_statevars state))
         (m1, equilibrium_rhs)) (\<lambda>state1.
      let system_amount_index = component_row_offset + num_fixed_components in
      and_then
        (for_each [0..<num_components] (\<lambda>component_idx.
           fill_component_row True system_amount_index component_idx
             masses mass_jac c_G c_statevars c_component phase_amt
             free_chemical_potential_indices free_statevar_indices
             free_stable_compset_indices idx num_statevars)
         state1) (\<lambda>(m2, rhs2).
      and_then
        (fill_phase_rhs rhs2 energy masses mass_jac c_component chemical_potentials phase_amt
           fixed_chemical_potential_indices prescribed_element_indices num_fixed_components
           component_row_offset (length e_matrix) idx num_statevars) (\<lambda>rhs3.
      Inr (m2, rhs3)))))))))"

text \<open>
  \<^verbatim>\<open>fill_equilibrium_system\<close> (lines 185-257) returns the filled matrix and right-hand
  side together with its return value, the mass residual. It is given with its two loop
  bodies named.

  Lines 208-240: the contribution of the phase at position \<open>stable_idx\<close> of the active set.
\<close>

definition phase_contribution ::
  "linalg \<Rightarrow> CompositionSet list \<Rightarrow> vec \<Rightarrow> vec \<Rightarrow> nat list \<Rightarrow> nat list \<Rightarrow> nat list \<Rightarrow> nat list
     \<Rightarrow> nat list \<Rightarrow> vec \<Rightarrow> nat \<Rightarrow> vec list \<Rightarrow> nat \<Rightarrow> mat \<times> vec \<Rightarrow> error + (mat \<times> vec)" where
  "phase_contribution la compsets chemical_potentials phase_amt
       free_chemical_potential_indices free_statevar_indices free_stable_compset_indices
       fixed_chemical_potential_indices prescribed_element_indices
       prescribed_elemental_amounts num_statevars dofs stable_idx = (\<lambda>(m, rhs).
     let idx = free_stable_compset_indices ! stable_idx;
         num_components = length chemical_potentials
     in
     and_then (get1 compsets idx) (\<lambda>compset.
     and_then (get1 dofs idx) (\<lambda>x.
     let pr = phase_record compset;
         n = num_statevars + phase_dof pr;
         energy_tmp = obj pr x;
         mass_jac_tmp = map (\<lambda>c. map (mass_grad pr x c) [0..<n]) [0..<num_components];
         masses_tmp = map (mass_obj pr x) [0..<num_components];
         hess_tmp = map (\<lambda>i. map (hess pr x i) [0..<n]) [0..<n];
         grad_tmp = map (grad pr x) [0..<n];
         phase_matrix = compute_phase_matrix
             (zeros2 (phase_dof pr + num_internal_cons pr)
                     (phase_dof pr + num_internal_cons pr))
             hess_tmp compset num_statevars x
     in (case linalg_inv la phase_matrix of
           None \<Rightarrow> Inl LinAlgError
         | Some phase_matrix_inv \<Rightarrow>
             let e_matrix = map (take (phase_dof pr)) (take (phase_dof pr) phase_matrix_inv)
             in fill_equilibrium_system_for_phase m rhs energy_tmp grad_tmp hess_tmp
                  masses_tmp mass_jac_tmp e_matrix chemical_potentials phase_amt
                  free_chemical_potential_indices free_statevar_indices
                  free_stable_compset_indices fixed_chemical_potential_indices
                  prescribed_element_indices prescribed_elemental_amounts
                  idx stable_idx num_statevars))))"

text \<open>
  Lines 248-254: the mass balance of one prescribed element. The division of line 249 is a
  division of C doubles, which Cython checks: a prescribed amount of zero raises
  ZeroDivisionError.
\<close>

definition mass_balance_row ::
  "nat list \<Rightarrow> vec \<Rightarrow> vec \<Rightarrow> nat \<Rightarrow> nat \<Rightarrow> real \<times> vec \<Rightarrow> error + (real \<times> vec)" where
  "mass_balance_row prescribed_element_indices prescribed_elemental_amounts
       current_elemental_amounts component_row_offset fixed_component_idx =
     (\<lambda>(mass_residual, rhs).
     and_then (get1 prescribed_element_indices fixed_component_idx) (\<lambda>component_idx.
     and_then (get1 current_elemental_amounts component_idx) (\<lambda>amount.
     let prescribed = prescribed_elemental_amounts ! fixed_component_idx in
     if \<bar>prescribed\<bar> = 0 then Inl ZeroDivisionError
     else and_then (sub1 rhs (component_row_offset + fixed_component_idx)
                      (amount - prescribed)) (\<lambda>rhs'.
          Inr (mass_residual + \<bar>amount - prescribed\<bar> / \<bar>prescribed\<bar>, rhs')))))"

definition fill_equilibrium_system ::
  "linalg \<Rightarrow> mat \<Rightarrow> vec \<Rightarrow> CompositionSet list \<Rightarrow> vec \<Rightarrow> vec \<Rightarrow> vec \<Rightarrow> nat list \<Rightarrow> nat list
     \<Rightarrow> nat list \<Rightarrow> nat list \<Rightarrow> nat list \<Rightarrow> vec \<Rightarrow> nat \<Rightarrow> real \<Rightarrow> vec list
     \<Rightarrow> error + (mat \<times> vec \<times> real)" where
  "fill_equilibrium_system la equilibrium_matrix equilibrium_rhs compsets chemical_potentials
       current_elemental_amounts phase_amt free_chemical_potential_indices
       free_statevar_indices free_stable_compset_indices fixed_chemical_potential_indices
       prescribed_element_indices prescribed_elemental_amounts num_statevars
       prescribed_system_amount dofs =
     and_then
       (for_each [0..<length free_stable_compset_indices]
          (phase_contribution la compsets chemical_potentials phase_amt
             free_chemical_potential_indices free_statevar_indices
             free_stable_compset_indices fixed_chemical_potential_indices
             prescribed_element_indices prescribed_elemental_amounts num_statevars dofs)
          (equilibrium_matrix, equilibrium_rhs))
       (\<lambda>(m, rhs1).
     and_then
       (for_each [0..<length prescribed_elemental_amounts]
          (mass_balance_row prescribed_element_indices prescribed_elemental_amounts
             current_elemental_amounts (length free_stable_compset_indices))
          (0, rhs1))
       (\<lambda>(mass_residual, rhs2).
     and_then
       (sub1 rhs2 (length free_stable_compset_indices + length prescribed_elemental_amounts)
          (sum_list phase_amt - prescribed_system_amount))
       (\<lambda>rhs3.
     Inr (m, rhs3, mass_residual + \<bar>sum_list phase_amt - prescribed_system_amount\<bar>))))"

section \<open>Unpacking the solution of the global system\<close>

text \<open>
  \<^verbatim>\<open>extract_equilibrium_solution\<close> (lines 260-291) updates, in place, the chemical
  potentials, the phase amounts, \<open>delta_statevars\<close>, the two trackers and the state
  variables of every vector of the list \<^verbatim>\<open>dof\<close> (here \<open>dofs\<close>, the name \<open>dof\<close> being the
  attribute of a composition set); the model returns the six of them. The relative
  changes are numpy divisions, hence of type \<open>npfloat\<close>. The four loop bodies come first.

  Lines 267-271: the free chemical potential at position \<open>i\<close>.
\<close>

definition update_chemical_potential ::
  "nat list \<Rightarrow> vec \<Rightarrow> nat \<Rightarrow> vec \<times> npfloat \<Rightarrow> error + (vec \<times> npfloat)" where
  "update_chemical_potential free_chemical_potential_indices equilibrium_soln i =
     (\<lambda>(chemical_potentials, largest_statevar_change).
     let chempot_idx = free_chemical_potential_indices ! i in
     and_then (get1 equilibrium_soln (0 + i)) (\<lambda>new.
     and_then (get1 chemical_potentials chempot_idx) (\<lambda>old.
     let chempot_change = new - old;
         percent_chempot_change = np_abs_div chempot_change old
     in and_then (set1 chemical_potentials chempot_idx new) (\<lambda>chemical_potentials'.
        Inr (chemical_potentials', py_max largest_statevar_change percent_chempot_change)))))"

text \<open>Lines 274-280: the amount of the phase at position \<open>i\<close> of the active set.\<close>

definition update_phase_amount ::
  "nat list \<Rightarrow> vec \<Rightarrow> nat \<Rightarrow> nat \<Rightarrow> vec \<times> real \<Rightarrow> error + (vec \<times> real)" where
  "update_phase_amount free_stable_compset_indices equilibrium_soln soln_index_offset i =
     (\<lambda>(phase_amt, largest_phase_amt_change).
     let compset_idx = free_stable_compset_indices ! i in
     and_then (get1 phase_amt compset_idx) (\<lambda>old.
     and_then (get1 equilibrium_soln (soln_index_offset + i)) (\<lambda>delta.
     let clipped = max 0 (min 1 (old + delta));
         phase_amt_change = clipped - old
     in and_then (set1 phase_amt compset_idx clipped) (\<lambda>phase_amt'.
        Inr (phase_amt', max largest_phase_amt_change phase_amt_change)))))"

text \<open>Lines 285-286: the increment of the free state variable at position \<open>i\<close>.\<close>

definition set_delta_statevar :: "nat list \<Rightarrow> vec \<Rightarrow> nat \<Rightarrow> nat \<Rightarrow> vec \<Rightarrow> error + vec" where
  "set_delta_statevar free_statevar_indices equilibrium_soln soln_index_offset i delta_statevars =
     (let statevar_idx = free_statevar_indices ! i in
      and_then (get1 equilibrium_soln (soln_index_offset + i)) (\<lambda>v.
      set1 delta_statevars statevar_idx v))"

text \<open>Line 291: \<^verbatim>\<open>dof[idx][:num_statevars] += delta_statevars\<close>.\<close>

definition shift_statevars :: "nat \<Rightarrow> vec \<Rightarrow> nat \<Rightarrow> vec list \<Rightarrow> error + vec list" where
  "shift_statevars num_statevars delta_statevars idx dofs =
     (let x = dofs ! idx;
          statevars = take num_statevars x
      in and_then (np_elementwise (+) statevars delta_statevars) (\<lambda>r.
         if length r = length statevars then Inr (dofs[idx := r @ drop num_statevars x])
         else Inl NumpyValueError))"

text \<open>
  Lines 287-288: the relative changes of the state variables, with every NaN replaced by
  zero.
\<close>

definition percent_statevar_changes :: "vec \<Rightarrow> vec \<Rightarrow> error + npfloat list" where
  "percent_statevar_changes delta_statevars statevars =
     and_then (np_elementwise np_abs_div delta_statevars statevars) (\<lambda>changes.
     Inr (map (\<lambda>p. if np_isnan p then Fin 0 else p) changes))"

definition extract_equilibrium_solution ::
  "vec \<Rightarrow> vec \<Rightarrow> vec \<Rightarrow> nat list \<Rightarrow> nat list \<Rightarrow> nat list \<Rightarrow> vec \<Rightarrow> npfloat \<Rightarrow> real \<Rightarrow> vec list
     \<Rightarrow> error + (vec \<times> vec \<times> vec \<times> npfloat \<times> real \<times> vec list)" where
  "extract_equilibrium_solution chemical_potentials phase_amt delta_statevars
       free_chemical_potential_indices free_statevar_indices free_stable_compset_indices
       equilibrium_soln largest_statevar_change largest_phase_amt_change dofs =
     (let num_statevars = length delta_statevars in
      and_then
        (for_each [0..<length free_chemical_potential_indices]
           (update_chemical_potential free_chemical_potential_indices equilibrium_soln)
           (chemical_potentials, largest_statevar_change))
        (\<lambda>(mu1, lsc1).
      and_then
        (for_each [0..<length free_stable_compset_indices]
           (update_phase_amount free_stable_compset_indices equilibrium_soln
              (length free_chemical_potential_indices))
           (phase_amt, largest_phase_amt_change))
        (\<lambda>(pa1, lpac1).
      and_then
        (for_each [0..<length free_statevar_indices]
           (set_delta_statevar free_statevar_indices equilibrium_soln
              (length free_chemical_potential_indices + length free_stable_compset_indices))
           (zeros num_statevars))
        (\<lambda>dsv1.
      and_then (get1 dofs 0) (\<lambda>dof0.
      and_then (percent_statevar_changes dsv1 (take num_statevars dof0)) (\<lambda>changes.
      and_then (np_max_f changes) (\<lambda>largest.
      let lsc2 = py_max lsc1 largest in
      and_then (for_each [0..<length dofs] (shift_statevars num_statevars dsv1) dofs)
        (\<lambda>dofs1.
      Inr (mu1, pa1, dsv1, lsc2, lpac1, dofs1)))))))))"

section \<open>Convergence test and change of the active set\<close>

text \<open>\<^verbatim>\<open>np.nonzero(mask)[0]\<close>: the positions at which a boolean array holds True, ascending.\<close>

definition np_nonzero :: "bool list \<Rightarrow> nat list" where
  "np_nonzero flags = filter (\<lambda>i. flags ! i) [0..<length flags]"

text \<open>
  \<^verbatim>\<open>check_convergence_and_change_phases\<close> (lines 294-304). \<open>driving_forces\<close> is the
  column \<^verbatim>\<open>driving_forces[:, 0]\<close>; the two trackers of shape (1, 1) are given by their entry.

  The literal \<^verbatim>\<open>1e-11\<close> of line 301 is the double 6189700196426901 / 2^89, which lies below
  the real number 10^-11: a change equal to that double is not below the threshold, and
  the bound of the model is that double. The doubles \<^verbatim>\<open>1e-10\<close>, \<^verbatim>\<open>1e-1\<close> and \<^verbatim>\<open>1e-5\<close>
  lie above the real numbers they are written as, with no double in between, so on doubles
  the comparisons with 10^-10, 10^-1 and -10^-5 are the comparisons of the code.
\<close>

definition check_convergence_and_change_phases ::
  "nat list \<Rightarrow> vec \<Rightarrow> real \<Rightarrow> real \<Rightarrow> npfloat \<Rightarrow> bool \<times> nat list" where
  "check_convergence_and_change_phases current_free_stable_compset_indices driving_forces
       largest_internal_dof_change largest_phase_amt_change largest_statevar_change =
     (let compsets_to_add = set (np_nonzero (map (\<lambda>df. df > - (1 / 10 ^ 5)) driving_forces));
          new_free_stable_compset_indices =
            sorted_list_of_set (set current_free_stable_compset_indices \<union> compsets_to_add);
          converged =
            (if set current_free_stable_compset_indices - set new_free_stable_compset_indices = {}
             then (if largest_internal_dof_change < 6189700196426901 / 2 ^ 89
                      \<and> largest_phase_amt_change < 1 / 10 ^ 10
                      \<and> np_less largest_statevar_change (Fin (1 / 10))
                   then True else False)
             else False)
      in (converged, new_free_stable_compset_indices))"

section \<open>The solver\<close>

text \<open>
  The arguments of \<^verbatim>\<open>find_solution\<close> (lines 307-311) that it never assigns to are
  collected in the record \<open>conditions\<close>.
\<close>

record conditions =
  num_statevars :: nat
  num_components :: nat
  prescribed_system_amount :: real
  initial_chemical_potentials :: vec
  free_chemical_potential_indices :: "nat list"
  fixed_chemical_potential_indices :: "nat list"
  prescribed_element_indices :: "nat list"
  prescribed_elemental_amounts :: vec
  free_statevar_indices :: "nat list"
  fixed_statevar_indices :: "nat list"

text \<open>
  The variables that live across the iterations. \<open>compsets\<close> are the caller's
  composition sets; \<open>phase_amt\<close> and \<open>dofs\<close> (the list \<^verbatim>\<open>dof\<close> of the source) are the
  arrays that lines 312-313 build from them with \<^verbatim>\<open>np.array\<close>, which copies.
\<close>

record solver_state =
  compsets :: "CompositionSet list"
  phase_amt :: vec
  dofs :: "vec list"
  chemical_potentials :: vec
  delta_statevars :: vec
  free_stable_compset_indices :: "nat list"
  converged :: bool

text \<open>The arrays and trackers that lines 319-324 set to zero in every iteration.\<close>

record iteration_vars =
  current_elemental_amounts :: vec
  all_phase_energies :: vec
  all_phase_amounts :: mat
  largest_internal_dof_change :: real
  largest_internal_cons_max_residual :: real

text \<open>
  Lines 343-346: the clipped site fractions, from the old ones and the step \<open>delta_y\<close>.
\<close>

definition clip_site_fractions :: "vec \<Rightarrow> vec \<Rightarrow> error + vec" where
  "clip_site_fractions old_y delta_y =
     and_then (np_elementwise (+) old_y delta_y) (\<lambda>new_y.
     Inr (map (\<lambda>y. if y > 1 then 1 else y)
            (map (\<lambda>y. if y < MIN_SITE_FRACTION then MIN_SITE_FRACTION else y) new_y)))"

text \<open>
  Lines 350-354, the body of the loop over the components: the mass of component
  \<open>comp_idx\<close> in the composition set \<open>idx\<close>, whose degrees of freedom are \<open>x\<close>.
\<close>

definition accumulate_mass ::
  "PhaseRecord \<Rightarrow> vec \<Rightarrow> vec \<Rightarrow> nat \<Rightarrow> nat \<Rightarrow> mat \<times> vec \<Rightarrow> error + (mat \<times> vec)" where
  "accumulate_mass pr x phase_amounts idx comp_idx =
     (\<lambda>(all_amounts, elemental_amounts).
     let mass = mass_obj pr x comp_idx in
     and_then (set2 all_amounts idx comp_idx mass) (\<lambda>all_amounts'.
     and_then (get1 phase_amounts idx) (\<lambda>amt.
     if amt > 0
     then and_then (add1 elemental_amounts comp_idx (amt * mass)) (\<lambda>elemental_amounts'.
          Inr (all_amounts', elemental_amounts'))
     else Inr (all_amounts', elemental_amounts))))"

text \<open>
  Lines 328-355, the body of the loop over the composition sets: the first step of an
  iteration for the composition set \<open>compset\<close> at position \<open>idx\<close>.
\<close>

definition update_internal_dof ::
  "linalg \<Rightarrow> conditions \<Rightarrow> solver_state \<Rightarrow> nat \<times> CompositionSet \<Rightarrow> vec list \<times> iteration_vars
     \<Rightarrow> error + (vec list \<times> iteration_vars)" where
  "update_internal_dof la c s = (\<lambda>(idx, compset) (dof_list, v).
     let pr = phase_record compset;
         size = phase_dof pr + num_internal_cons pr
     in
     and_then (get1 dof_list idx) (\<lambda>x.
     and_then (compute_phase_system (zeros2 size size) (zeros size) compset
                 (delta_statevars s) (chemical_potentials s) x)
       (\<lambda>(phase_matrix, rhs, internal_cons_max_residual).
     case linalg_solve la phase_matrix rhs of
       None \<Rightarrow> Inl LinAlgError
     | Some soln \<Rightarrow>
     let delta_y = take (phase_dof pr) soln;
         cons_residual = max (largest_internal_cons_max_residual v) internal_cons_max_residual;
         old_y = drop (num_statevars c) x
     in
     and_then (clip_site_fractions old_y delta_y) (\<lambda>new_y.
     and_then (np_elementwise (-) new_y old_y) (\<lambda>difference.
     and_then (np_max (map abs difference)) (\<lambda>change.
     let dof_change = max (largest_internal_dof_change v) change in
     and_then (np_assign (length old_y) new_y) (\<lambda>stored.
     let x' = take (num_statevars c) x @ stored;
         dof_list' = dof_list[idx := x']
     in
     and_then
       (for_each [0..<num_components c] (accumulate_mass pr x' (phase_amt s) idx)
          (all_phase_amounts v, current_elemental_amounts v))
       (\<lambda>(amounts, elemental).
     and_then (set1 (all_phase_energies v) idx (obj pr x')) (\<lambda>energies.
     Inr (dof_list',
          \<lparr>current_elemental_amounts = elemental,
           all_phase_energies = energies,
           all_phase_amounts = amounts,
           largest_internal_dof_change = dof_change,
           largest_internal_cons_max_residual = cons_residual\<rparr>))))))))))"

text \<open>Lines 319-355: the zeroed arrays and the loop over all composition sets.\<close>

definition internal_dof_step ::
  "linalg \<Rightarrow> conditions \<Rightarrow> solver_state \<Rightarrow> error + (vec list \<times> iteration_vars)" where
  "internal_dof_step la c s =
     for_each (enumerate 0 (compsets s)) (update_internal_dof la c s)
       (dofs s,
        \<lparr>current_elemental_amounts = zeros (length (chemical_potentials s)),
         all_phase_energies = zeros (length (compsets s)),
         all_phase_amounts = zeros2 (length (compsets s)) (length (chemical_potentials s)),
         largest_internal_dof_change = 0,
         largest_internal_cons_max_residual = 0\<rparr>)"

text \<open>Lines 358-363: the extents of the global system.\<close>

definition num_equations :: "conditions \<Rightarrow> solver_state \<Rightarrow> nat" where
  "num_equations c s =
     length (free_stable_compset_indices s) + length (prescribed_elemental_amounts c) + 1"

definition num_free_variables :: "conditions \<Rightarrow> solver_state \<Rightarrow> nat" where
  "num_free_variables c s =
     length (free_chemical_potential_indices c) + length (free_stable_compset_indices s)
       + length (free_statevar_indices c)"

text \<open>Lines 362-373: the zeroed global system, filled by \<open>fill_equilibrium_system\<close>.\<close>

definition global_system ::
  "linalg \<Rightarrow> conditions \<Rightarrow> solver_state \<Rightarrow> vec list \<Rightarrow> iteration_vars
     \<Rightarrow> error + (mat \<times> vec \<times> real)" where
  "global_system la c s dof_list v =
     fill_equilibrium_system la
       (zeros2 (num_equations c s) (num_free_variables c s)) (zeros (num_equations c s))
       (compsets s) (chemical_potentials s) (current_elemental_amounts v) (phase_amt s)
       (free_chemical_potential_indices c) (free_statevar_indices c)
       (free_stable_compset_indices s) (fixed_chemical_potential_indices c)
       (prescribed_element_indices c) (prescribed_elemental_amounts c) (num_statevars c)
       (prescribed_system_amount c) dof_list"

text \<open>
  Lines 383-398: the feasibility gate, the change of the active set and the convergence
  test, applied to the state \<open>s1\<close> that holds the unpacked solution.
\<close>

definition change_phases ::
  "solver_state \<Rightarrow> iteration_vars \<Rightarrow> real \<Rightarrow> real \<Rightarrow> npfloat \<Rightarrow> solver_state" where
  "change_phases s1 v mass_residual largest_phase_amt_change largest_statevar_change =
     (let system_is_feasible =
            (mass_residual < 1 / 10 ^ 5 \<and> largest_internal_cons_max_residual v < 1 / 10 ^ 10)
      in if system_is_feasible
         then (let active = np_nonzero (map (\<lambda>amt. amt > MIN_SITE_FRACTION) (phase_amt s1));
                   driving_forces =
                     map (\<lambda>idx. all_phase_energies v ! idx
                                 - np_dot (chemical_potentials s1) (all_phase_amounts v ! idx))
                         [0..<length (compsets s1)];
                   result = check_convergence_and_change_phases active driving_forces
                              (largest_internal_dof_change v) largest_phase_amt_change
                              largest_statevar_change
               in s1\<lparr>free_stable_compset_indices := snd result, converged := fst result\<rparr>)
         else s1)"

text \<open>Lines 319-398: one pass through the body of the outer loop.\<close>

definition iteration_body :: "linalg \<Rightarrow> conditions \<Rightarrow> solver_state \<Rightarrow> error + solver_state" where
  "iteration_body la c s =
     and_then (internal_dof_step la c s) (\<lambda>(dof_list, v).
     if num_equations c s \<noteq> num_free_variables c s then Inl GibbsPhaseRule
     else
     and_then (global_system la c s dof_list v)
       (\<lambda>(equilibrium_matrix, equilibrium_rhs, mass_residual).
     case linalg_lstsq la equilibrium_matrix equilibrium_rhs of
       None \<Rightarrow> Inl LinAlgError
     | Some equilibrium_soln \<Rightarrow>
     and_then (extract_equilibrium_solution (chemical_potentials s) (phase_amt s)
                 (delta_statevars s) (free_chemical_potential_indices c)
                 (free_statevar_indices c) (free_stable_compset_indices s)
                 equilibrium_soln (Fin 0) 0 dof_list)
       (\<lambda>(mu, amounts, dsv, largest_statevar_change, largest_phase_amt_change, dof_list').
     Inr (change_phases
            (s\<lparr>phase_amt := amounts, dofs := dof_list', chemical_potentials := mu,
               delta_statevars := dsv\<rparr>)
            v mass_residual largest_phase_amt_change largest_statevar_change))))"

text \<open>
  Line 318 and lines 396-398: the outer loop over the iteration numbers \<open>its\<close>, left early
  once an iteration has declared convergence. The first component of the result counts the
  passes through the body that were begun.
\<close>

fun run_iterations ::
  "linalg \<Rightarrow> conditions \<Rightarrow> nat list \<Rightarrow> solver_state \<Rightarrow> nat \<times> (error + solver_state)" where
  "run_iterations la c [] s = (0, Inr s)"
| "run_iterations la c (iteration # its) s =
     (case iteration_body la c s of
        Inl e \<Rightarrow> (1, Inl e)
      | Inr s' \<Rightarrow>
          if converged s' then (1, Inr s')
          else (case run_iterations la c its s' of (n, r) \<Rightarrow> (Suc n, r)))"

text \<open>Lines 400-403: the packed solution vector.\<close>

definition pack_solution :: "nat \<Rightarrow> vec list \<Rightarrow> vec \<Rightarrow> error + vec" where
  "pack_solution n_statevars dof_list amounts =
     (case dof_list of
        [] \<Rightarrow> Inl IndexError
      | x # rest \<Rightarrow> Inr (fold (\<lambda>cs_dof x. x @ drop n_statevars cs_dof) rest x @ amounts))"

text \<open>Lines 312-316: the state before the first iteration.\<close>

definition initial_state :: "CompositionSet list \<Rightarrow> nat list \<Rightarrow> conditions \<Rightarrow> solver_state" where
  "initial_state composition_sets active c =
     \<lparr>compsets = composition_sets,
      phase_amt = map NP composition_sets,
      dofs = map dof composition_sets,
      chemical_potentials = initial_chemical_potentials c,
      delta_statevars = zeros (num_statevars c),
      free_stable_compset_indices = active,
      converged = False\<rparr>"

text \<open>
  \<^verbatim>\<open>find_solution\<close> (lines 307-405). The model returns the triple that the function
  returns and, next to it, the composition sets as the call leaves them to the caller.
\<close>

definition find_solution ::
  "linalg \<Rightarrow> CompositionSet list \<Rightarrow> nat list \<Rightarrow> conditions
     \<Rightarrow> error + ((bool \<times> vec \<times> vec) \<times> CompositionSet list)" where
  "find_solution la composition_sets active c =
     and_then (snd (run_iterations la c [0..<100] (initial_state composition_sets active c)))
       (\<lambda>s.
     and_then (pack_solution (num_statevars c) (dofs s) (phase_amt s)) (\<lambda>x.
     Inr ((converged s, x, chemical_potentials s), compsets s)))"

section \<open>Inputs for the concrete runs\<close>

text \<open>
  A phase of one pure element: one internal degree of freedom, the site fraction \<open>y\<close>,
  one state variable, the constraint \<open>y - 1 = 0\<close>, the constant energy 2 and the mass \<open>y\<close>
  of its single component.
\<close>

definition pure_element :: PhaseRecord where
  "pure_element =
     \<lparr>phase_dof = 1, num_internal_cons = 1,
      obj = (\<lambda>x. 2),
      grad = (\<lambda>x i. 0),
      hess = (\<lambda>x i j. 0),
      mass_obj = (\<lambda>x comp. x ! 1),
      mass_grad = (\<lambda>x comp i. if i = 1 then 1 else 0),
      internal_cons_func = (\<lambda>x k. x ! 1 - 1),
      internal_cons_jac = (\<lambda>x k i. if i = 1 then 1 else 0)\<rparr>"

text \<open>A composition set of that phase at 1000 K with the given amount and site fraction.\<close>

definition pure_compset :: "real \<Rightarrow> real \<Rightarrow> CompositionSet" where
  "pure_compset amount y = \<lparr>phase_record = pure_element, NP = amount, dof = [1000, y]\<rparr>"

text \<open>
  The systems that arise for this phase are the exchange matrix, which is its own inverse,
  for the system of the phase, and the identity matrix for the global system. The linear
  algebra is given for exactly these two matrices; any other matrix is reported singular.
\<close>

definition exchange_solver :: linalg where
  "exchange_solver =
     \<lparr>linalg_solve = (\<lambda>a b. if a = [[0, 1], [1, 0]] then Some (rev b) else None),
      linalg_inv = (\<lambda>a. if a = [[0, 1], [1, 0]] then Some a else None),
      linalg_lstsq = (\<lambda>a b. if a = [[1, 0], [0, 1]] then Some b else None)\<rparr>"

text \<open>
  Conditions for one component: its chemical potential is free, the state variable is
  fixed, no elemental amount is prescribed, the system amount is the argument.
\<close>

definition one_component :: "real \<Rightarrow> conditions" where
  "one_component amount =
     \<lparr>num_statevars = 1, num_components = 1, prescribed_system_amount = amount,
      initial_chemical_potentials = [2],
      free_chemical_potential_indices = [0], fixed_chemical_potential_indices = [],
      prescribed_element_indices = [], prescribed_elemental_amounts = [],
      free_statevar_indices = [], fixed_statevar_indices = [0]\<rparr>"

text \<open>A second composition set of the pure phase, with an amount below \<open>MIN_SITE_FRACTION\<close>.\<close>

definition trace_amount :: CompositionSet where
  "trace_amount = pure_compset (1 / 10 ^ 13) 1"

text \<open>
  Conditions that break the phase rule: the only chemical potential is fixed, so a single
  stable phase gives two equations for one unknown.
\<close>

definition overdetermined :: conditions where
  "overdetermined =
     \<lparr>num_statevars = 1, num_components = 1, prescribed_system_amount = 1,
      initial_chemical_potentials = [2],
      free_chemical_potential_indices = [], fixed_chemical_potential_indices = [0],
      prescribed_element_indices = [], prescribed_elemental_amounts = [],
      free_statevar_indices = [], fixed_statevar_indices = [0]\<rparr>"

section \<open>Predicates for the proofs\<close>

text \<open>The product of a matrix with a vector and with a matrix, to state what a solver returns.\<close>

definition mat_vec :: "mat \<Rightarrow> vec \<Rightarrow> vec" where
  "mat_vec a x = map (\<lambda>row. np_dot row x) a"

definition mat_mat :: "mat \<Rightarrow> mat \<Rightarrow> mat" where
  "mat_mat a b = map (\<lambda>row. map (\<lambda>j. np_dot row (map (\<lambda>r. r ! j) b)) [0..<ncols b]) a"

text \<open>A result that is not the exception of line 365.\<close>

definition not_gibbs :: "error + 'a \<Rightarrow> bool" where
  "not_gibbs m = (m \<noteq> Inl GibbsPhaseRule)"

section \<open>Properties of the convergence test\<close>

lemma set_np_nonzero: "set (np_nonzero flags) = {i. i < length flags \<and> flags ! i}"
  by (auto simp: np_nonzero_def)

lemma new_active_set_eq:
  "snd (check_convergence_and_change_phases cur df a b c) =
     sorted_list_of_set (set cur \<union> {i. i < length df \<and> df ! i > - (1 / 10 ^ 5)})"
proof -
  have "set (np_nonzero (map (\<lambda>d. d > - (1 / 10 ^ 5)) df)) =
          {i. i < length df \<and> df ! i > - (1 / 10 ^ 5)}"
    by (auto simp: set_np_nonzero)
  then show ?thesis
    by (simp add: check_convergence_and_change_phases_def Let_def)
qed

lemma new_active_set_superset:
  "set cur \<subseteq> set (snd (check_convergence_and_change_phases cur df a b c))"
proof -
  have "finite (set cur \<union> {i. i < length df \<and> df ! i > - (1 / 10 ^ 5)})"
    by simp
  then show ?thesis
    unfolding new_active_set_eq by simp
qed

lemma convergence_predicate_helper:
  "fst (check_convergence_and_change_phases cur df a b c) =
     (a < 6189700196426901 / 2 ^ 89 \<and> b < 1 / 10 ^ 10 \<and> np_less c (Fin (1 / 10)))"
proof -
  have "set cur - set (snd (check_convergence_and_change_phases cur df a b c)) = {}"
    using new_active_set_superset [of cur df a b c] by blast
  then show ?thesis
    by (simp add: check_convergence_and_change_phases_def Let_def)
qed

text \<open>
  C6. The function reports convergence exactly when no index of the current active set is
  missing from the new one and the three change trackers are below their thresholds
  (1e-11, 1e-10, 1e-1); in every other case it reports False. The first threshold is the
  double that the literal \<^verbatim>\<open>1e-11\<close> denotes, 6189700196426901 / 2^89.
\<close>

theorem convergence_predicate:
  "fst (check_convergence_and_change_phases cur df a b c) =
     (set cur - set (snd (check_convergence_and_change_phases cur df a b c)) = {}
      \<and> a < 6189700196426901 / 2 ^ 89 \<and> b < 1 / 10 ^ 10 \<and> np_less c (Fin (1 / 10)))"
  by (simp add: check_convergence_and_change_phases_def Let_def)

text \<open>
  At the threshold itself the test fails, as \<open><\<close> on doubles does: with every other condition
  met, an internal change equal to the double \<^verbatim>\<open>1e-11\<close> is not reported as converged, and
  the next smaller double, 6189700196426900 / 2^89, is.
\<close>

lemma convergence_threshold_strict:
  "\<not> fst (check_convergence_and_change_phases [0] [0] (6189700196426901 / 2 ^ 89) 0 (Fin 0))"
  "fst (check_convergence_and_change_phases [0] [0] (6189700196426900 / 2 ^ 89) 0 (Fin 0))"
  by (simp_all add: convergence_predicate_helper)

text \<open>
  C9. The new active set is the sorted union of the current one with the indices whose
  driving force exceeds -1e-5; it contains the current active set, so the no-removal test
  holds on every call and convergence is decided by the three thresholds alone.
\<close>

theorem new_active_set_sorted_union:
  "snd (check_convergence_and_change_phases cur df a b c) =
     sorted_list_of_set (set cur \<union> {i. i < length df \<and> df ! i > - (1 / 10 ^ 5)})
   \<and> sorted (snd (check_convergence_and_change_phases cur df a b c))
   \<and> distinct (snd (check_convergence_and_change_phases cur df a b c))
   \<and> set cur \<subseteq> set (snd (check_convergence_and_change_phases cur df a b c))
   \<and> set cur - set (snd (check_convergence_and_change_phases cur df a b c)) = {}
   \<and> fst (check_convergence_and_change_phases cur df a b c) =
       (a < 6189700196426901 / 2 ^ 89 \<and> b < 1 / 10 ^ 10 \<and> np_less c (Fin (1 / 10)))"
proof -
  let ?new = "snd (check_convergence_and_change_phases cur df a b c)"
  have sub: "set cur \<subseteq> set ?new" by (rule new_active_set_superset)
  then have empty: "set cur - set ?new = {}" by blast
  have "fst (check_convergence_and_change_phases cur df a b c) =
     (set cur - set ?new = {}
      \<and> a < 6189700196426901 / 2 ^ 89 \<and> b < 1 / 10 ^ 10 \<and> np_less c (Fin (1 / 10)))"
    by (simp add: check_convergence_and_change_phases_def Let_def)
  with empty have conv: "fst (check_convergence_and_change_phases cur df a b c) =
       (a < 6189700196426901 / 2 ^ 89 \<and> b < 1 / 10 ^ 10 \<and> np_less c (Fin (1 / 10)))"
    by simp
  have "sorted ?new" "distinct ?new"
    unfolding new_active_set_eq by simp_all
  with sub empty conv new_active_set_eq [of cur df a b c] show ?thesis
    by blast
qed

section \<open>Loops and exceptions\<close>

lemma and_then_Inr [simp]: "and_then (Inr v) f = f v"
  by (simp add: and_then_def)

lemma and_then_Inl [simp]: "and_then (Inl e) f = Inl e"
  by (simp add: and_then_def)

lemma and_then_eq_Inr: "and_then m f = Inr r \<longleftrightarrow> (\<exists>v. m = Inr v \<and> f v = Inr r)"
  by (cases m) simp_all

lemma for_each_split:
  assumes "for_each zs body t = Inr s'"
    and "P ys t"
    and "\<And>us x vs u u'. zs = us @ x # vs \<Longrightarrow> P (ys @ us) u \<Longrightarrow> body x u = Inr u'
           \<Longrightarrow> P (ys @ us @ [x]) u'"
  shows "P (ys @ zs) s'"
  using assms
proof (induction zs arbitrary: ys t)
  case Nil
  then show ?case by simp
next
  case (Cons z zs)
  from Cons.prems(1) obtain t' where t': "body z t = Inr t'" and rest: "for_each zs body t' = Inr s'"
    by (auto simp: and_then_eq_Inr)
  have "P (ys @ [] @ [z]) t'"
    using Cons.prems(3) [of "[]" z zs t t'] Cons.prems(2) t' by simp
  then have p: "P ((ys @ [z])) t'" by simp
  have "P ((ys @ [z]) @ zs) s'"
  proof (rule Cons.IH [OF rest p])
    fix us x vs u u'
    assume "zs = us @ x # vs" "P ((ys @ [z]) @ us) u" "body x u = Inr u'"
    then show "P ((ys @ [z]) @ us @ [x]) u'"
      using Cons.prems(3) [of "z # us" x vs u u'] by simp
  qed
  then show ?case by simp
qed

lemma for_each_prefix_invariant:
  assumes "for_each xs body s = Inr s'"
    and "P [] s"
    and "\<And>us x vs u u'. xs = us @ x # vs \<Longrightarrow> P us u \<Longrightarrow> body x u = Inr u' \<Longrightarrow> P (us @ [x]) u'"
  shows "P xs s'"
  using for_each_split [of xs body s s' P "[]"] assms by simp

lemma for_each_invariant:
  assumes "for_each xs body s = Inr s'"
    and "P s"
    and "\<And>x u u'. x \<in> set xs \<Longrightarrow> P u \<Longrightarrow> body x u = Inr u' \<Longrightarrow> P u'"
  shows "P s'"
proof (rule for_each_prefix_invariant [OF assms(1), of "\<lambda>_. P"])
  show "P s" by (rule assms(2))
next
  fix us x vs u u'
  assume "xs = us @ x # vs" "P u" "body x u = Inr u'"
  then show "P u'" using assms(3) [of x u u'] by simp
qed

lemma shift_statevars_length:
  "shift_statevars n dsv idx dl = Inr dl' \<Longrightarrow> length dl' = length dl"
  by (auto simp: shift_statevars_def Let_def and_then_eq_Inr split: if_splits)

lemma extract_dofs_length:
  assumes "extract_equilibrium_solution mu pa dsv fm fsv fs soln lsc lpac dl
             = Inr (mu', pa', dsv', lsc', lpac', dl')"
  shows "dl \<noteq> [] \<and> length dl' = length dl"
proof -
  from assms obtain dsv1 dof0 where
    loop: "for_each [0..<length dl] (shift_statevars (length dsv) dsv1) dl = Inr dl'"
    and nonempty: "get1 dl 0 = Inr dof0"
    by (auto simp: extract_equilibrium_solution_def Let_def and_then_eq_Inr split: prod.splits)
  have "length dl' = length dl"
    by (rule for_each_invariant [OF loop, of "\<lambda>d. length d = length dl"])
       (auto dest!: shift_statevars_length)
  moreover from nonempty have "dl \<noteq> []"
    by (auto simp: get1_def split: if_splits)
  ultimately show ?thesis by simp
qed

lemma change_phases_frame:
  "compsets (change_phases s1 v mr lpac lsc) = compsets s1
   \<and> dofs (change_phases s1 v mr lpac lsc) = dofs s1
   \<and> phase_amt (change_phases s1 v mr lpac lsc) = phase_amt s1
   \<and> chemical_potentials (change_phases s1 v mr lpac lsc) = chemical_potentials s1"
  by (simp add: change_phases_def Let_def)

lemma iteration_body_frame:
  assumes "iteration_body la c s = Inr s'"
  shows "compsets s' = compsets s \<and> dofs s' \<noteq> []"
proof -
  from assms obtain dl v mr soln mu pa dsv lsc lpac dl' where
    ex: "extract_equilibrium_solution (chemical_potentials s) (phase_amt s)
                 (delta_statevars s) (free_chemical_potential_indices c)
                 (free_statevar_indices c) (free_stable_compset_indices s)
                 soln (Fin 0) 0 dl = Inr (mu, pa, dsv, lsc, lpac, dl')"
    and s': "s' = change_phases
            (s\<lparr>phase_amt := pa, dofs := dl', chemical_potentials := mu,
               delta_statevars := dsv\<rparr>) v mr lpac lsc"
    by (auto simp: iteration_body_def and_then_eq_Inr split: if_splits option.splits)
  from extract_dofs_length [OF ex] have "dl' \<noteq> []" by auto
  with s' show ?thesis by (simp add: change_phases_frame)
qed


lemma fst_run_iterations_Cons:
  "fst (run_iterations la c (i # its) s) =
     (case iteration_body la c s of
        Inl e \<Rightarrow> 1
      | Inr s' \<Rightarrow> if converged s' then 1 else Suc (fst (run_iterations la c its s')))"
  by (simp split: sum.splits prod.splits)

lemma snd_run_iterations_Cons:
  "snd (run_iterations la c (i # its) s) =
     (case iteration_body la c s of
        Inl e \<Rightarrow> Inl e
      | Inr s' \<Rightarrow> if converged s' then Inr s' else snd (run_iterations la c its s'))"
  by (simp split: sum.splits prod.splits)

lemma run_iterations_count: "fst (run_iterations la c its s) \<le> length its"
proof (induction its arbitrary: s)
  case Nil
  show ?case by simp
next
  case (Cons i its)
  show ?case
    unfolding fst_run_iterations_Cons
    using Cons.IH by (auto split: sum.splits)
qed

lemma run_iterations_frame:
  "snd (run_iterations la c its s) = Inr s' \<Longrightarrow> compsets s' = compsets s"
proof (induction its arbitrary: s)
  case Nil
  then show ?case by simp
next
  case (Cons i its)
  from Cons.prems obtain t where t: "iteration_body la c s = Inr t"
    and rest: "if converged t then s' = t else snd (run_iterations la c its t) = Inr s'"
    unfolding snd_run_iterations_Cons by (auto split: sum.splits if_splits)
  from iteration_body_frame [OF t] have "compsets t = compsets s" by simp
  with rest Cons.IH [of t] show ?case
    by (auto split: if_splits)
qed

lemma run_iterations_dofs:
  "snd (run_iterations la c its s) = Inr s' \<Longrightarrow> its \<noteq> [] \<Longrightarrow> dofs s' \<noteq> []"
proof (induction its arbitrary: s)
  case Nil
  then show ?case by simp
next
  case (Cons i its)
  from Cons.prems obtain t where t: "iteration_body la c s = Inr t"
    and rest: "if converged t then s' = t else snd (run_iterations la c its t) = Inr s'"
    unfolding snd_run_iterations_Cons by (auto split: sum.splits if_splits)
  from iteration_body_frame [OF t] have d: "dofs t \<noteq> []" by simp
  show ?case
  proof (cases "converged t \<or> its = []")
    case True
    with rest d show ?thesis by (auto split: if_splits)
  next
    case False
    with rest Cons.IH [of t] show ?thesis by simp
  qed
qed

lemma run_iterations_exhausted:
  "snd (run_iterations la c its s) = Inr s' \<Longrightarrow> \<not> converged s'
     \<Longrightarrow> fst (run_iterations la c its s) = length its"
proof (induction its arbitrary: s)
  case Nil
  then show ?case by simp
next
  case (Cons i its)
  from Cons.prems obtain t where t: "iteration_body la c s = Inr t"
    and rest: "if converged t then s' = t else snd (run_iterations la c its t) = Inr s'"
    unfolding snd_run_iterations_Cons by (auto split: sum.splits if_splits)
  from rest Cons.prems(2) have nc: "\<not> converged t" and run: "snd (run_iterations la c its t) = Inr s'"
    by (auto split: if_splits)
  from Cons.IH [OF run Cons.prems(2)] t nc show ?case
    unfolding fst_run_iterations_Cons by simp
qed

lemma pack_solution_nonempty:
  "dl \<noteq> [] \<Longrightarrow> pack_solution n dl amounts
     = Inr (hd dl @ concat (map (drop n) (tl dl)) @ amounts)"
proof -
  have fold_concat: "fold (\<lambda>cs_dof x. x @ drop n cs_dof) rest x = x @ concat (map (drop n) rest)"
    for rest x
    by (induction rest arbitrary: x) simp_all
  assume "dl \<noteq> []"
  then show ?thesis
    by (cases dl) (simp_all add: pack_solution_def fold_concat)
qed

section \<open>The linear algebra of the concrete runs\<close>

text \<open>
  Whatever \<open>exchange_solver\<close> returns is what the routine of numpy returns for these
  arguments: the solution of the system, the inverse of the matrix, and for the global
  system, whose matrix is the identity, its exact and therefore least-squares solution.
\<close>

lemma exchange_solver_sound:
  "linalg_solve exchange_solver a [b0, b1] = Some x \<Longrightarrow> mat_vec a x = [b0, b1]"
  "linalg_lstsq exchange_solver a [b0, b1] = Some x \<Longrightarrow> mat_vec a x = [b0, b1]"
  by (auto simp: exchange_solver_def mat_vec_def np_dot_def split: if_splits)

lemma exchange_solver_inverse:
  "linalg_inv exchange_solver a = Some ai \<Longrightarrow> mat_mat a ai = [[1, 0], [0, 1]]"
proof -
  have "mat_mat [[0, 1], [1, 0]] [[0, 1], [1, 0]] = [[1, 0], [0, 1]]"
    by code_simp
  moreover assume "linalg_inv exchange_solver a = Some ai"
  then have "a = [[0, 1], [1, 0]]" "ai = [[0, 1], [1, 0]]"
    by (auto simp: exchange_solver_def split: if_splits)
  ultimately show ?thesis by simp
qed

section \<open>The outer loop and the composition sets\<close>

lemma map_sum_id_Inr: "map_sum id f m = Inr y \<Longrightarrow> \<exists>v. m = Inr v \<and> f v = y"
  by (cases m) auto

text \<open>
  C2 (as amended). \<^verbatim>\<open>find_solution\<close> leaves the caller's composition sets as they
  were: a call that returns has not changed any \<open>dof\<close> or \<open>NP\<close>. The final \<open>dof\<close> and
  \<open>phase_amt\<close> of the solver are returned in the packed vector only, which is the first
  \<open>dof\<close> array, the internal degrees of freedom of the others and the phase amounts.
\<close>

theorem find_solution_leaves_composition_sets:
  assumes "find_solution la cs active c = Inr ((conv, x, mu), cs')"
  shows "cs' = cs
    \<and> (\<exists>s. snd (run_iterations la c [0..<100] (initial_state cs active c)) = Inr s
          \<and> conv = converged s \<and> mu = chemical_potentials s
          \<and> x = hd (dofs s) @ concat (map (drop (num_statevars c)) (tl (dofs s))) @ phase_amt s)"
proof -
  from assms obtain s where
    run: "snd (run_iterations la c [0..<100] (initial_state cs active c)) = Inr s"
    and pack: "pack_solution (num_statevars c) (dofs s) (phase_amt s) = Inr x"
    and ret: "conv = converged s" "mu = chemical_potentials s" "cs' = compsets s"
    by (auto simp: find_solution_def and_then_eq_Inr)
  from run_iterations_frame [OF run] have "compsets s = cs"
    by (simp add: initial_state_def)
  moreover from run_iterations_dofs [OF run] have "dofs s \<noteq> []" by simp
  from pack_solution_nonempty [OF this] pack
  have "x = hd (dofs s) @ concat (map (drop (num_statevars c)) (tl (dofs s))) @ phase_amt s"
    by simp
  ultimately show ?thesis using run ret by blast
qed

lemma settled_run:
  "map_sum id (\<lambda>(r, cs'). (r, map NP cs', map dof cs'))
     (find_solution exchange_solver [pure_compset 1 (1 / 2)] [0] (one_component (1 / 2)))
   = Inr ((True, [1000, 1, 1 / 2], [2]), [1], [[1000, 1 / 2]])"
  by code_simp

text \<open>
  The theorem at a run that converges in its second iteration: a pure phase of amount 1
  and site fraction 1/2, with a prescribed system amount of 1/2.
\<close>

theorem find_solution_leaves_composition_sets_witness:
  "(case find_solution exchange_solver [pure_compset 1 (1 / 2)] [0] (one_component (1 / 2)) of
      Inr (r, cs') \<Rightarrow> cs' = [pure_compset 1 (1 / 2)] \<and> fst r
    | Inl e \<Rightarrow> False)"
proof -
  from map_sum_id_Inr [OF settled_run] obtain conv x mu cs' where
    ret: "find_solution exchange_solver [pure_compset 1 (1 / 2)] [0] (one_component (1 / 2))
            = Inr ((conv, x, mu), cs')" and "conv = True"
    by auto
  from find_solution_leaves_composition_sets [OF ret] ret \<open>conv = True\<close> show ?thesis
    by simp
qed

text \<open>
  C2 as stated fails on that run: on return the composition set still holds \<open>NP = 1\<close> and
  \<open>dof = [1000, 1/2]\<close>, while the solver ended with the phase amount 1/2 and the
  degrees of freedom \<open>[1000, 1]\<close>.
\<close>

theorem composition_sets_not_updated:
  "map_sum id (\<lambda>(r, cs'). (r, map NP cs', map dof cs'))
     (find_solution exchange_solver [pure_compset 1 (1 / 2)] [0] (one_component (1 / 2)))
     = Inr ((True, [1000, 1, 1 / 2], [2]), [1], [[1000, 1 / 2]])
   \<and> map_sum id (\<lambda>s. (phase_amt s, dofs s))
       (snd (run_iterations exchange_solver (one_component (1 / 2)) [0..<100]
              (initial_state [pure_compset 1 (1 / 2)] [0] (one_component (1 / 2)))))
     = Inr ([1 / 2], [[1000, 1]])"
  by code_simp

text \<open>
  C4. A call begins at most 100 passes through the loop body. When the loop ends without
  an exception and without convergence, all 100 passes were made and the call returns
  False with the packed last iterate and its chemical potentials; an exception of the
  call is always the exception of one of the passes, never a consequence of the
  exhausted loop.
\<close>

theorem find_solution_iteration_cap:
  "fst (run_iterations la c [0..<100] (initial_state cs active c)) \<le> 100
   \<and> (\<forall>s. snd (run_iterations la c [0..<100] (initial_state cs active c)) = Inr s
            \<and> \<not> converged s
        \<longrightarrow> fst (run_iterations la c [0..<100] (initial_state cs active c)) = 100
            \<and> find_solution la cs active c =
                Inr ((False,
                      hd (dofs s) @ concat (map (drop (num_statevars c)) (tl (dofs s))) @ phase_amt s,
                      chemical_potentials s), cs))
   \<and> (\<forall>e. find_solution la cs active c = Inl e
        \<longrightarrow> snd (run_iterations la c [0..<100] (initial_state cs active c)) = Inl e)"
proof (intro conjI allI impI)
  show "fst (run_iterations la c [0..<100] (initial_state cs active c)) \<le> 100"
    using run_iterations_count [of la c "[0..<100]" "initial_state cs active c"] by simp
next
  fix s
  assume a: "snd (run_iterations la c [0..<100] (initial_state cs active c)) = Inr s
               \<and> \<not> converged s"
  then have run: "snd (run_iterations la c [0..<100] (initial_state cs active c)) = Inr s"
    and nc: "\<not> converged s" by simp_all
  from run_iterations_exhausted [OF run nc]
  show "fst (run_iterations la c [0..<100] (initial_state cs active c)) = 100" by simp
  from run_iterations_dofs [OF run] have "dofs s \<noteq> []" by simp
  note pack = pack_solution_nonempty [OF this, of "num_statevars c" "phase_amt s"]
  from run_iterations_frame [OF run] have "compsets s = cs"
    by (simp add: initial_state_def)
  with run nc pack show "find_solution la cs active c =
      Inr ((False,
            hd (dofs s) @ concat (map (drop (num_statevars c)) (tl (dofs s))) @ phase_amt s,
            chemical_potentials s), cs)"
    by (simp add: find_solution_def)
next
  fix e
  assume err: "find_solution la cs active c = Inl e"
  show "snd (run_iterations la c [0..<100] (initial_state cs active c)) = Inl e"
  proof (cases "snd (run_iterations la c [0..<100] (initial_state cs active c))")
    case (Inl e')
    with err show ?thesis by (simp add: find_solution_def)
  next
    case (Inr s)
    from run_iterations_dofs [OF Inr] have "dofs s \<noteq> []" by simp
    from pack_solution_nonempty [OF this, of "num_statevars c" "phase_amt s"] Inr err
    show ?thesis by (simp add: find_solution_def)
  qed
qed

lemma run_iterations_fixed_point:
  assumes "iteration_body la c s = Inr s" and "\<not> converged s"
  shows "run_iterations la c its s = (length its, Inr s)"
  using assms by (induction its) simp_all

lemma stuck_iteration:
  "map_sum id (\<lambda>s. (phase_amt s, dofs s, chemical_potentials s, delta_statevars s,
                     free_stable_compset_indices s, converged s))
     (iteration_body exchange_solver (one_component 2)
        (initial_state [pure_compset 1 1] [0] (one_component 2)))
   = Inr ([1], [[1000, 1]], [2], [0], [0], False)"
  by code_simp

lemma stuck_state:
  "iteration_body exchange_solver (one_component 2)
        (initial_state [pure_compset 1 1] [0] (one_component 2))
   = Inr (initial_state [pure_compset 1 1] [0] (one_component 2))"
proof -
  let ?s = "initial_state [pure_compset 1 1] [0] (one_component 2)"
  from map_sum_id_Inr [OF stuck_iteration] obtain t where
    t: "iteration_body exchange_solver (one_component 2) ?s = Inr t"
    and fields: "phase_amt t = [1]" "dofs t = [[1000, 1]]" "chemical_potentials t = [2]"
      "delta_statevars t = [0]" "free_stable_compset_indices t = [0]" "converged t = False"
    by auto
  from iteration_body_frame [OF t] have "compsets t = compsets ?s" by simp
  moreover have "solver_state.more t = solver_state.more ?s" by simp
  ultimately have "t = ?s"
    using fields
    by (intro solver_state.equality)
       (simp_all add: initial_state_def pure_compset_def one_component_def zeros_def)
  with t show ?thesis by simp
qed

text \<open>
  The theorem at a run that cannot converge: the prescribed system amount is 2, the single
  phase amount is clipped to 1, and every iteration returns the state it started from.
\<close>

theorem find_solution_iteration_cap_witness:
  "fst (run_iterations exchange_solver (one_component 2) [0..<100]
          (initial_state [pure_compset 1 1] [0] (one_component 2))) = 100
   \<and> find_solution exchange_solver [pure_compset 1 1] [0] (one_component 2)
       = Inr ((False, [1000, 1, 1], [2]), [pure_compset 1 1])"
proof -
  let ?s = "initial_state [pure_compset 1 1] [0] (one_component 2)"
  have nc: "\<not> converged ?s" by (simp add: initial_state_def)
  from run_iterations_fixed_point [OF stuck_state nc, of "[0..<100]"]
  have run: "snd (run_iterations exchange_solver (one_component 2) [0..<100] ?s) = Inr ?s"
    by simp
  from find_solution_iteration_cap [of exchange_solver "one_component 2" "[pure_compset 1 1]" "[0]"]
    run nc
  have "fst (run_iterations exchange_solver (one_component 2) [0..<100] ?s) = 100
    \<and> find_solution exchange_solver [pure_compset 1 1] [0] (one_component 2) =
                Inr ((False,
                      hd (dofs ?s) @ concat (map (drop (num_statevars (one_component 2))) (tl (dofs ?s))) @ phase_amt ?s,
                      chemical_potentials ?s), [pure_compset 1 1])"
    by blast
  then show ?thesis
    by (simp add: initial_state_def pure_compset_def one_component_def)
qed

section \<open>Shapes of the global system\<close>

lemma for_each2_invariant:
  assumes "for_each xs (\<lambda>x. for_each (ys x) (body x)) s = Inr s'"
    and "P s"
    and "\<And>x y u u'. P u \<Longrightarrow> body x y u = Inr u' \<Longrightarrow> P u'"
  shows "P s'"
proof (rule for_each_invariant [OF assms(1), of P])
  show "P s" by (rule assms(2))
next
  fix x u u'
  assume "P u" and inner: "for_each (ys x) (body x) u = Inr u'"
  show "P u'"
    by (rule for_each_invariant [OF inner, of P]) (use \<open>P u\<close> assms(3) in auto)
qed

lemma set1_length: "set1 xs i v = Inr ys \<Longrightarrow> length ys = length xs"
  by (auto simp: set1_def split: if_splits)

lemma add1_length: "add1 xs i v = Inr ys \<Longrightarrow> length ys = length xs"
  by (auto simp: add1_def split: if_splits)

lemma sub1_length: "sub1 xs i v = Inr ys \<Longrightarrow> length ys = length xs"
  by (auto simp: sub1_def split: if_splits)

lemma map_length_update: "i < length m \<Longrightarrow> map length (m[i := (m ! i)[j := v]]) = map length m"
  by (simp add: map_update list_update_same_conv)

lemma set2_shape: "set2 m i j v = Inr m' \<Longrightarrow> map length m' = map length m"
  by (auto simp: set2_def map_length_update split: if_splits)

lemma add2_shape: "add2 m i j v = Inr m' \<Longrightarrow> map length m' = map length m"
  by (auto simp: add2_def map_length_update split: if_splits)

lemma sub2_shape: "sub2 m i j v = Inr m' \<Longrightarrow> map length m' = map length m"
  by (auto simp: sub2_def map_length_update split: if_splits)

lemma fill_phase_row_shape:
  assumes "fill_phase_row m g masses fm fsv fs stable_idx = Inr m'"
  shows "map length m' = map length m"
proof -
  from assms obtain m1 where
    l1: "for_each [0..<length fm] (\<lambda>i m.
          let chempot_idx = fm ! i in
          and_then (get1 masses chempot_idx) (\<lambda>v. set2 m stable_idx (0 + i) v)) m = Inr m1"
    and l2: "for_each [0..<length fsv] (\<lambda>i m.
            let statevar_idx = fsv ! i in
            and_then (get1 g statevar_idx) (\<lambda>g.
            set2 m stable_idx (length fm + length fs + i) (- g))) m1 = Inr m'"
    by (auto simp: fill_phase_row_def and_then_eq_Inr Let_def)
  have "map length m1 = map length m"
    by (rule for_each_invariant [OF l1, of "\<lambda>u. map length u = map length m"])
       (auto simp: and_then_eq_Inr Let_def dest!: set2_shape)
  moreover have "map length m' = map length m1"
    by (rule for_each_invariant [OF l2, of "\<lambda>u. map length u = map length m1"])
       (auto simp: and_then_eq_Inr Let_def dest!: set2_shape)
  ultimately show ?thesis by simp
qed

lemma fill_component_row_shape:
  assumes "fill_component_row acc row ci masses mj c_G c_sv c_comp pa fm fsv fs idx S st = Inr st'"
  shows "map length (fst st') = map length (fst st) \<and> length (snd st') = length (snd st)"
proof -
  let ?P = "\<lambda>u. map length (fst u) = map length (fst st) \<and> length (snd u) = length (snd st)"
  from assms obtain st1 st2 st3 where
    l1: "for_each [0..<length fm] (\<lambda>i.
          let chempot_idx = fm ! i in
          for_each [0..<length c_G] (\<lambda>j (m, rhs).
            and_then (get1 pa idx) (\<lambda>pa.
            and_then (get2 mj ci (S + j)) (\<lambda>mj.
            and_then (get2 c_comp chempot_idx j) (\<lambda>cc.
            and_then (add2 m row (0 + i) (pa * mj * cc)) (\<lambda>m'. Inr (m', rhs))))))) st = Inr st1"
    and l2: "for_each [0..<length fs] (\<lambda>i (m, rhs).
          let compset_idx = fs ! i in
          if compset_idx = idx
          then and_then (get1 masses ci) (\<lambda>v.
               and_then ((if acc then add2 else set2) m row (length fm + i) v) (\<lambda>m'. Inr (m', rhs)))
          else Inr (m, rhs)) st1 = Inr st2"
    and l3: "for_each [0..<length fsv] (\<lambda>i.
          let statevar_idx = fsv ! i in
          for_each [0..<length c_sv] (\<lambda>j (m, rhs).
            and_then (get1 pa idx) (\<lambda>pa.
            and_then (get2 mj ci (S + j)) (\<lambda>mj.
            and_then (get2 c_sv j statevar_idx) (\<lambda>cs.
            and_then (add2 m row (length fm + length fs + i) (pa * mj * cs))
              (\<lambda>m'. Inr (m', rhs))))))) st2 = Inr st3"
    and l4: "for_each [0..<length c_G] (\<lambda>j (m, rhs).
       and_then (get1 pa idx) (\<lambda>pa.
       and_then (get2 mj ci (S + j)) (\<lambda>mj.
       and_then (get1 c_G j) (\<lambda>cg.
       and_then (add1 rhs row (- pa * mj * cg)) (\<lambda>rhs'. Inr (m, rhs')))))) st3 = Inr st'"
    unfolding fill_component_row_def and_then_eq_Inr by blast
  have p1: "?P st1"
    by (rule for_each2_invariant [OF l1 [unfolded Let_def], of ?P])
       (auto simp: and_then_eq_Inr dest!: add2_shape)
  have p2: "?P st2"
    by (rule for_each_invariant [OF l2, of ?P])
       (use p1 in \<open>auto simp: and_then_eq_Inr Let_def dest!: add2_shape set2_shape split: if_splits\<close>)
  have p3: "?P st3"
    by (rule for_each2_invariant [OF l3 [unfolded Let_def], of ?P])
       (use p2 in \<open>auto simp: and_then_eq_Inr dest!: add2_shape\<close>)
  show "?P st'"
    by (rule for_each_invariant [OF l4, of ?P])
       (use p3 in \<open>auto simp: and_then_eq_Inr dest!: add1_length\<close>)
qed


lemma fixed_potential_element_term_length:
  assumes "fixed_potential_element_term mj c_comp pa pei off cols idx S chempot_idx m fc rhs
             = Inr rhs'"
  shows "length rhs' = length rhs"
proof -
  from assms obtain component_idx where
    loop: "for_each [0..<cols] (\<lambda>j rhs.
       and_then (get1 pa idx) (\<lambda>pa.
       and_then (get2 mj component_idx (S + j)) (\<lambda>mj.
       and_then (get2 c_comp chempot_idx j) (\<lambda>cc.
       sub1 rhs (off + fc) (pa * m * mj * cc))))) rhs = Inr rhs'"
    unfolding fixed_potential_element_term_def and_then_eq_Inr by blast
  show ?thesis
    by (rule for_each_invariant [OF loop, of "\<lambda>u. length u = length rhs"])
       (auto simp: and_then_eq_Inr dest!: sub1_length)
qed

lemma fixed_potential_terms_length:
  assumes "fixed_potential_terms masses mj c_comp mu pa fixed pei nf off cols idx S i rhs
             = Inr rhs'"
  shows "length rhs' = length rhs"
proof -
  from assms obtain m rhs1 where
    first: "sub1 rhs idx m = Inr rhs1"
    and loop: "for_each [0..<nf]
        (fixed_potential_element_term mj c_comp pa pei off cols idx S (fixed ! i)
           (mu ! (fixed ! i))) rhs1 = Inr rhs'"
    by (auto simp: fixed_potential_terms_def Let_def and_then_eq_Inr get1_def split: if_splits)
  have "length rhs' = length rhs1"
    by (rule for_each_invariant [OF loop, of "\<lambda>u. length u = length rhs1"])
       (auto dest!: fixed_potential_element_term_length)
  with sub1_length [OF first] show ?thesis by simp
qed

lemma fill_phase_rhs_length:
  assumes "fill_phase_rhs rhs energy masses mj c_comp mu pa fixed pei nf off cols idx S = Inr rhs'"
  shows "length rhs' = length rhs"
proof -
  from assms obtain rhs0 where
    r0: "set1 rhs idx energy = Inr rhs0"
    and loop: "for_each [0..<length fixed]
          (fixed_potential_terms masses mj c_comp mu pa fixed pei nf off cols idx S) rhs0
         = Inr rhs'"
    unfolding fill_phase_rhs_def and_then_eq_Inr by blast
  have "length rhs' = length rhs0"
    by (rule for_each_invariant [OF loop, of "\<lambda>u. length u = length rhs0"])
       (auto dest!: fixed_potential_terms_length)
  with set1_length [OF r0] show ?thesis by simp
qed

lemma fill_equilibrium_system_for_phase_shape:
  assumes "fill_equilibrium_system_for_phase m rhs energy g h masses mj e mu pa fm fsv fs fixed
             pei pea idx stable_idx S = Inr (m', rhs')"
  shows "map length m' = map length m \<and> length rhs' = length rhs"
proof -
  from assms obtain c_G c_sv c_comp m1 st1 m2 rhs2 where
    row: "fill_phase_row m g masses fm fsv fs stable_idx = Inr m1"
    and l1: "for_each [0..<length pea] (\<lambda>fixed_component_idx state.
           and_then (get1 pei fixed_component_idx) (\<lambda>component_idx.
           fill_component_row False (length fs + fixed_component_idx) component_idx
             masses mj c_G c_sv c_comp pa fm fsv fs idx S state))
         (m1, rhs) = Inr st1"
    and l2: "for_each [0..<length mu] (\<lambda>component_idx.
           fill_component_row True (length fs + length pea) component_idx
             masses mj c_G c_sv c_comp pa fm fsv fs idx S)
         st1 = Inr (m2, rhs2)"
    and r: "fill_phase_rhs rhs2 energy masses mj c_comp mu pa fixed pei (length pea)
              (length fs) (length e) idx S = Inr rhs'"
    and m': "m' = m2"
    by (auto simp: fill_equilibrium_system_for_phase_def Let_def and_then_eq_Inr
             split: prod.splits)
  let ?P = "\<lambda>u. map length (fst u) = map length m \<and> length (snd u) = length rhs"
  from fill_phase_row_shape [OF row] have "?P (m1, rhs)" by simp
  have p1: "?P st1"
    by (rule for_each_invariant [OF l1, of ?P])
       (use \<open>?P (m1, rhs)\<close> in \<open>auto simp: and_then_eq_Inr dest!: fill_component_row_shape\<close>)
  have p2: "?P (m2, rhs2)"
    by (rule for_each_invariant [OF l2, of ?P])
       (use p1 in \<open>auto dest!: fill_component_row_shape\<close>)
  with fill_phase_rhs_length [OF r] m' show ?thesis by simp
qed

lemma phase_contribution_shape:
  assumes "phase_contribution la cs mu pa fm fsv fs fixed pei pea S dl stable_idx st = Inr st'"
  shows "map length (fst st') = map length (fst st) \<and> length (snd st') = length (snd st)"
proof -
  obtain m rhs m' rhs' where st: "st = (m, rhs)" "st' = (m', rhs')"
    by (cases st; cases st') auto
  from assms [unfolded st phase_contribution_def Let_def] obtain energy g h masses mj e idx where
    "fill_equilibrium_system_for_phase m rhs energy g h masses mj e mu pa fm fsv fs fixed
       pei pea idx stable_idx S = Inr (m', rhs')"
    by (auto simp: and_then_eq_Inr split: option.splits)
  from fill_equilibrium_system_for_phase_shape [OF this] st show ?thesis by simp
qed

lemma mass_balance_row_length:
  assumes "mass_balance_row pei pea cea off fc st = Inr st'"
  shows "length (snd st') = length (snd st)"
  using assms
  by (cases st; cases st')
     (auto simp: mass_balance_row_def and_then_eq_Inr Let_def split: if_splits
           dest!: sub1_length)

lemma fill_equilibrium_system_shape:
  assumes "fill_equilibrium_system la m rhs cs mu cea pa fm fsv fs fixed pei pea S psa dl
             = Inr (m', rhs', mr)"
  shows "map length m' = map length m \<and> length rhs' = length rhs"
proof -
  from assms obtain rhs1 acc rhs2 where
    l1: "for_each [0..<length fs] (phase_contribution la cs mu pa fm fsv fs fixed pei pea S dl)
           (m, rhs) = Inr (m', rhs1)"
    and l2: "for_each [0..<length pea] (mass_balance_row pei pea cea (length fs)) (0, rhs1)
           = Inr (acc, rhs2)"
    and l3: "sub1 rhs2 (length fs + length pea) (sum_list pa - psa) = Inr rhs'"
    by (auto simp: fill_equilibrium_system_def and_then_eq_Inr)
  let ?P = "\<lambda>u. map length (fst u) = map length m \<and> length (snd u) = length rhs"
  have p1: "?P (m', rhs1)"
    by (rule for_each_invariant [OF l1, of ?P]) (auto dest!: phase_contribution_shape)
  have p2: "length (snd (acc, rhs2)) = length rhs"
    by (rule for_each_invariant [OF l2, of "\<lambda>u. length (snd u) = length rhs"])
       (use p1 in \<open>auto dest!: mass_balance_row_length\<close>)
  from sub1_length [OF l3] p1 p2 show ?thesis by simp
qed

lemma global_system_square:
  assumes "global_system la c s dl v = Inr (m, rhs, mr)"
  shows "length m = num_equations c s
       \<and> list_all (\<lambda>row. length row = num_free_variables c s) m
       \<and> length rhs = num_equations c s"
proof -
  from fill_equilibrium_system_shape [OF assms [unfolded global_system_def]]
  have shape: "map length m = replicate (num_equations c s) (num_free_variables c s)"
    and len: "length rhs = num_equations c s"
    by (simp_all add: zeros2_def zeros_def)
  from shape have "length (map length m) = num_equations c s" by simp
  then have "length m = num_equations c s" by simp
  moreover from shape have "set (map length m) \<subseteq> {num_free_variables c s}"
    by auto
  then have "list_all (\<lambda>row. length row = num_free_variables c s) m"
    by (auto simp: list_all_iff)
  ultimately show ?thesis using len by simp
qed

section \<open>The phase-rule check\<close>

lemma not_gibbs_Inr: "not_gibbs (Inr v)"
  by (simp add: not_gibbs_def)

lemma not_gibbs_Inl: "e \<noteq> GibbsPhaseRule \<Longrightarrow> not_gibbs (Inl e)"
  by (simp add: not_gibbs_def)

lemma not_gibbs_and_then:
  "not_gibbs m \<Longrightarrow> (\<And>v. not_gibbs (f v)) \<Longrightarrow> not_gibbs (and_then m f)"
  by (cases m) (simp_all add: not_gibbs_def)

lemma not_gibbs_for_each: "(\<And>i s. not_gibbs (body i s)) \<Longrightarrow> not_gibbs (for_each xs body s)"
  by (induction xs arbitrary: s) (simp_all add: not_gibbs_Inr not_gibbs_and_then)

lemma not_gibbs_if:
  "(c \<Longrightarrow> not_gibbs a) \<Longrightarrow> (\<not> c \<Longrightarrow> not_gibbs b) \<Longrightarrow> not_gibbs (if c then a else b)"
  by simp

lemma not_gibbs_case_prod: "(\<And>a b. not_gibbs (f a b)) \<Longrightarrow> not_gibbs (case_prod f p)"
  by (cases p) simp

lemma not_gibbs_case_prod_arg:
  "(\<And>a b. not_gibbs (f a b s)) \<Longrightarrow> not_gibbs (case_prod f p s)"
  by (cases p) simp

lemma not_gibbs_case_option:
  "not_gibbs a \<Longrightarrow> (\<And>v. not_gibbs (f v)) \<Longrightarrow> not_gibbs (case_option a f x)"
  by (cases x) simp_all

lemma not_gibbs_access:
  "not_gibbs (get1 xs i)" "not_gibbs (set1 xs i w)" "not_gibbs (add1 ys i r)"
  "not_gibbs (sub1 ys i r)" "not_gibbs (get2 m i j)" "not_gibbs (set2 m i j r)"
  "not_gibbs (add2 m i j r)" "not_gibbs (sub2 m i j r)"
  "not_gibbs ((if b then add2 else set2) m i j r)"
  by (simp_all add: not_gibbs_def get1_def set1_def add1_def sub1_def get2_def set2_def
        add2_def sub2_def)

lemma not_gibbs_numpy:
  "not_gibbs (np_max ys)" "not_gibbs (np_max_f zs)" "not_gibbs (np_elementwise f a b)"
  "not_gibbs (np_assign n a)"
  by (simp_all add: not_gibbs_def np_max_def np_max_f_def np_elementwise_def np_assign_def
        split: list.splits)

lemmas not_gibbs_rules =
  not_gibbs_Inr not_gibbs_and_then not_gibbs_for_each not_gibbs_if not_gibbs_case_prod
  not_gibbs_case_prod_arg not_gibbs_case_option not_gibbs_access not_gibbs_numpy

lemma not_gibbs_condensed:
  "not_gibbs (condensed_c_G e g S)" "not_gibbs (condensed_c_statevars e h S)"
  "not_gibbs (condensed_c_component e mj S n)"
  unfolding condensed_c_G_def condensed_c_statevars_def condensed_c_component_def
  by (intro not_gibbs_rules)+

lemma not_gibbs_fill_phase_row: "not_gibbs (fill_phase_row m g masses fm fsv fs stable_idx)"
  unfolding fill_phase_row_def Let_def by (intro not_gibbs_rules)

lemma not_gibbs_fill_component_row:
  "not_gibbs (fill_component_row acc row ci masses mj c_G c_sv c_comp pa fm fsv fs idx S st)"
  unfolding fill_component_row_def Let_def by (intro not_gibbs_rules)

lemma not_gibbs_fill_phase_rhs:
  "not_gibbs (fill_phase_rhs rhs energy masses mj c_comp mu pa fixed pei nf off cols idx S)"
  unfolding fill_phase_rhs_def fixed_potential_terms_def fixed_potential_element_term_def Let_def
  by (intro not_gibbs_rules)

lemma not_gibbs_for_phase:
  "not_gibbs (fill_equilibrium_system_for_phase m rhs energy g h masses mj e mu pa fm fsv fs
                fixed pei pea idx stable_idx S)"
  unfolding fill_equilibrium_system_for_phase_def Let_def
  by (intro not_gibbs_rules not_gibbs_condensed not_gibbs_fill_phase_row
        not_gibbs_fill_component_row not_gibbs_fill_phase_rhs)

lemma not_gibbs_global_system: "not_gibbs (global_system la c s dl v)"
  unfolding global_system_def fill_equilibrium_system_def phase_contribution_def
    mass_balance_row_def Let_def
  by (intro not_gibbs_rules not_gibbs_for_phase not_gibbs_Inl) simp_all

lemma not_gibbs_internal_dof_step: "not_gibbs (internal_dof_step la c s)"
  unfolding internal_dof_step_def update_internal_dof_def compute_phase_system_def
    clip_site_fractions_def accumulate_mass_def Let_def
  by (intro not_gibbs_rules not_gibbs_Inl) simp_all

lemma not_gibbs_extract:
  "not_gibbs (extract_equilibrium_solution mu pa dsv fm fsv fs soln lsc lpac dl)"
  unfolding extract_equilibrium_solution_def update_chemical_potential_def
    update_phase_amount_def set_delta_statevar_def shift_statevars_def
    percent_statevar_changes_def Let_def
  by (intro not_gibbs_rules not_gibbs_Inl) simp_all

text \<open>
  C3. When the number of equations differs from the number of free variables, a pass
  through the loop body ends in an exception no later than line 365: it is the exception
  of the first step if that step raises, and the phase-rule error otherwise, so the global
  system is neither filled nor solved. When the two numbers agree, the pass does not raise
  the phase-rule error, and the filled global matrix is square, with as many rows as the
  right-hand side has entries.
\<close>

theorem gibbs_phase_rule_check:
  "(num_equations c s \<noteq> num_free_variables c s \<longrightarrow>
      iteration_body la c s =
        (case internal_dof_step la c s of Inl e \<Rightarrow> Inl e | Inr r \<Rightarrow> Inl GibbsPhaseRule))
   \<and> (num_equations c s = num_free_variables c s \<longrightarrow>
      iteration_body la c s \<noteq> Inl GibbsPhaseRule
      \<and> (\<forall>dl v m rhs mr. global_system la c s dl v = Inr (m, rhs, mr) \<longrightarrow>
            length m = num_equations c s
            \<and> list_all (\<lambda>row. length row = length m) m
            \<and> length rhs = length m))
   \<and> (iteration_body la c s = Inl GibbsPhaseRule \<longleftrightarrow>
        num_equations c s \<noteq> num_free_variables c s \<and> (\<exists>r. internal_dof_step la c s = Inr r))"
proof -
  have first: "internal_dof_step la c s \<noteq> Inl GibbsPhaseRule"
    using not_gibbs_internal_dof_step [of la c s] by (simp add: not_gibbs_def)
  have differ: "iteration_body la c s =
        (case internal_dof_step la c s of Inl e \<Rightarrow> Inl e | Inr r \<Rightarrow> Inl GibbsPhaseRule)"
    if "num_equations c s \<noteq> num_free_variables c s"
    using that by (simp add: iteration_body_def and_then_def split: sum.splits prod.splits)
  have rest: "not_gibbs
     (and_then (global_system la c s dl v)
       (\<lambda>(equilibrium_matrix, equilibrium_rhs, mass_residual).
     case linalg_lstsq la equilibrium_matrix equilibrium_rhs of
       None \<Rightarrow> Inl LinAlgError
     | Some equilibrium_soln \<Rightarrow>
     and_then (extract_equilibrium_solution (chemical_potentials s) (phase_amt s)
                 (delta_statevars s) (free_chemical_potential_indices c)
                 (free_statevar_indices c) (free_stable_compset_indices s)
                 equilibrium_soln (Fin 0) 0 dl)
       (\<lambda>(mu, amounts, dsv, largest_statevar_change, largest_phase_amt_change, dof_list').
     Inr (change_phases
            (s\<lparr>phase_amt := amounts, dofs := dof_list', chemical_potentials := mu,
               delta_statevars := dsv\<rparr>)
            v mass_residual largest_phase_amt_change largest_statevar_change))))" for dl v
    by (intro not_gibbs_rules not_gibbs_global_system not_gibbs_extract not_gibbs_Inl) simp
  have equal: "iteration_body la c s \<noteq> Inl GibbsPhaseRule"
    if "num_equations c s = num_free_variables c s"
  proof (cases "internal_dof_step la c s")
    case (Inl e)
    with first show ?thesis by (simp add: iteration_body_def)
  next
    case (Inr r)
    obtain dl v where "r = (dl, v)" by (cases r)
    with Inr that rest [of dl v] show ?thesis
      by (simp add: iteration_body_def not_gibbs_def)
  qed
  have square: "length m = num_equations c s
            \<and> list_all (\<lambda>row. length row = length m) m
            \<and> length rhs = length m"
    if "num_equations c s = num_free_variables c s"
      and "global_system la c s dl v = Inr (m, rhs, mr)" for dl v m rhs mr
    using global_system_square [OF that(2)] that(1) by simp
  have iff: "iteration_body la c s = Inl GibbsPhaseRule \<longleftrightarrow>
        num_equations c s \<noteq> num_free_variables c s \<and> (\<exists>r. internal_dof_step la c s = Inr r)"
  proof (cases "num_equations c s = num_free_variables c s")
    case True
    with equal show ?thesis by simp
  next
    case False
    with differ first show ?thesis
      by (cases "internal_dof_step la c s") auto
  qed
  from differ equal square iff show ?thesis by blast
qed

lemma overdetermined_first_step:
  "map_sum id fst (internal_dof_step exchange_solver overdetermined
        (initial_state [pure_compset 1 1] [0] overdetermined)) = Inr [[1000, 1]]"
  by code_simp

lemma stuck_first_step:
  "internal_dof_step exchange_solver (one_component 2)
        (initial_state [pure_compset 1 1] [0] (one_component 2))
   = Inr ([[1000, 1]],
          \<lparr>current_elemental_amounts = [1], all_phase_energies = [2],
           all_phase_amounts = [[1]], largest_internal_dof_change = 0,
           largest_internal_cons_max_residual = 0\<rparr>)"
  by code_simp

lemma stuck_global_system:
  "global_system exchange_solver (one_component 2)
        (initial_state [pure_compset 1 1] [0] (one_component 2)) [[1000, 1]]
          \<lparr>current_elemental_amounts = [1], all_phase_energies = [2],
           all_phase_amounts = [[1]], largest_internal_dof_change = 0,
           largest_internal_cons_max_residual = 0\<rparr>
   = Inr ([[1, 0], [0, 1]], [2, 1], 1)"
  by code_simp

text \<open>
  The theorem at the conditions that break the phase rule and at conditions that obey it.
\<close>

theorem gibbs_phase_rule_check_witness:
  "iteration_body exchange_solver overdetermined
      (initial_state [pure_compset 1 1] [0] overdetermined) = Inl GibbsPhaseRule
   \<and> iteration_body exchange_solver (one_component 2)
        (initial_state [pure_compset 1 1] [0] (one_component 2)) \<noteq> Inl GibbsPhaseRule
   \<and> length [[1, 0], [0, 1 :: real]] = 2
   \<and> list_all (\<lambda>row. length row = 2) [[1, 0], [0, 1 :: real]]"
proof -
  let ?s = "initial_state [pure_compset 1 1] [0] overdetermined"
  let ?t = "initial_state [pure_compset 1 1] [0] (one_component 2)"
  have "num_equations overdetermined ?s \<noteq> num_free_variables overdetermined ?s"
    by (simp add: num_equations_def num_free_variables_def overdetermined_def initial_state_def)
  moreover from map_sum_id_Inr [OF overdetermined_first_step]
  obtain r where "internal_dof_step exchange_solver overdetermined ?s = Inr r" by blast
  ultimately have a: "iteration_body exchange_solver overdetermined ?s = Inl GibbsPhaseRule"
    using gibbs_phase_rule_check [of overdetermined ?s exchange_solver] by simp
  have eq: "num_equations (one_component 2) ?t = num_free_variables (one_component 2) ?t"
    and two: "num_equations (one_component 2) ?t = 2"
    by (simp_all add: num_equations_def num_free_variables_def one_component_def
          initial_state_def)
  from gibbs_phase_rule_check [of "one_component 2" ?t exchange_solver] eq
  have b: "iteration_body exchange_solver (one_component 2) ?t \<noteq> Inl GibbsPhaseRule"
    and c: "\<And>dl v m rhs mr. global_system exchange_solver (one_component 2) ?t dl v
               = Inr (m, rhs, mr) \<Longrightarrow>
            length m = num_equations (one_component 2) ?t
            \<and> list_all (\<lambda>row. length row = length m) m"
    by blast+
  from c [OF stuck_global_system] two a b show ?thesis by simp
qed

section \<open>The feasibility gate\<close>

text \<open>
  C7. A pass whose mass residual is at least 1e-5, or whose largest constraint residual is
  at least 1e-10, leaves the active set and the convergence flag as they were. The flag is
  False whenever a pass begins (lines 316 and 396-398), so such a pass does not declare
  convergence: the loop goes on to its next pass.
\<close>

theorem infeasible_iteration_keeps_active_set:
  assumes "internal_dof_step la c s = Inr (dl, v)"
    and "global_system la c s dl v = Inr (m, rhs, mass_residual)"
    and "mass_residual \<ge> 1 / 10 ^ 5 \<or> largest_internal_cons_max_residual v \<ge> 1 / 10 ^ 10"
    and "iteration_body la c s = Inr s'"
  shows "free_stable_compset_indices s' = free_stable_compset_indices s
       \<and> converged s' = converged s
       \<and> (\<not> converged s \<longrightarrow>
            run_iterations la c (i # its) s =
              (case run_iterations la c its s' of (n, r) \<Rightarrow> (Suc n, r)))"
proof -
  from assms(3) have gate:
    "\<not> (mass_residual < 1 / 10 ^ 5 \<and> largest_internal_cons_max_residual v < 1 / 10 ^ 10)"
    by auto
  from assms(4) assms(1) assms(2) obtain s1 lpac lsc where
    s': "s' = change_phases s1 v mass_residual lpac lsc"
    and s1: "free_stable_compset_indices s1 = free_stable_compset_indices s"
            "converged s1 = converged s"
    by (auto simp: iteration_body_def and_then_eq_Inr split: if_splits option.splits)
  from gate have "change_phases s1 v mass_residual lpac lsc = s1"
    unfolding change_phases_def Let_def by (simp only: if_False)
  with s' s1 have "free_stable_compset_indices s' = free_stable_compset_indices s"
    and "converged s' = converged s" by simp_all
  with assms(4) show ?thesis by simp
qed

text \<open>The theorem at the first pass of the run that cannot converge: its mass residual is 1.\<close>

theorem infeasible_iteration_keeps_active_set_witness:
  "(1 :: real) \<ge> 1 / 10 ^ 5
   \<and> (case iteration_body exchange_solver (one_component 2)
              (initial_state [pure_compset 1 1] [0] (one_component 2)) of
         Inr s' \<Rightarrow> free_stable_compset_indices s' = [0] \<and> \<not> converged s'
       | Inl e \<Rightarrow> False)"
proof -
  let ?t = "initial_state [pure_compset 1 1] [0] (one_component 2)"
  have big: "(1 :: real) \<ge> 1 / 10 ^ 5" by simp
  then have gate: "(1 :: real) \<ge> 1 / 10 ^ 5
      \<or> largest_internal_cons_max_residual
           \<lparr>current_elemental_amounts = [1], all_phase_energies = [2],
            all_phase_amounts = [[1]], largest_internal_dof_change = 0,
            largest_internal_cons_max_residual = 0\<rparr> \<ge> 1 / 10 ^ 10"
    by blast
  from infeasible_iteration_keeps_active_set
         [OF stuck_first_step stuck_global_system gate stuck_state]
  have "free_stable_compset_indices ?t = [0] \<and> \<not> converged ?t"
    by (simp add: initial_state_def)
  with big stuck_state show ?thesis by simp
qed

section \<open>Clipping\<close>

lemma update_phase_amount_result:
  assumes "update_phase_amount fs soln off i (pa, l) = Inr (pa', l')"
  shows "fs ! i < length pa \<and> (\<exists>w. 0 \<le> w \<and> w \<le> 1 \<and> pa' = pa[fs ! i := w])"
proof -
  from assms obtain old delta where
    "get1 pa (fs ! i) = Inr old"
    and "set1 pa (fs ! i) (max 0 (min 1 (old + delta))) = Inr pa'"
    by (auto simp: update_phase_amount_def Let_def and_then_eq_Inr)
  then have "fs ! i < length pa" and "pa' = pa[fs ! i := max 0 (min 1 (old + delta))]"
    by (auto simp: get1_def set1_def split: if_splits)
  moreover have "0 \<le> max 0 (min 1 (old + delta))" "max 0 (min 1 (old + delta)) \<le> 1"
    by simp_all
  ultimately show ?thesis by blast
qed

lemma phase_amounts_clipped:
  assumes "for_each [0..<length fs] (update_phase_amount fs soln off) (pa, l) = Inr (pa', l')"
  shows "list_all (\<lambda>i. 0 \<le> pa' ! i \<and> pa' ! i \<le> 1) fs"
proof -
  let ?P = "\<lambda>us u. \<forall>k \<in> set us. 0 \<le> fst u ! (fs ! k) \<and> fst u ! (fs ! k) \<le> 1"
  have "?P [0..<length fs] (pa', l')"
  proof (rule for_each_prefix_invariant [OF assms, of ?P])
    show "?P [] (pa, l)" by simp
  next
    fix us x vs u u'
    assume split: "[0..<length fs] = us @ x # vs" and inv: "?P us u"
      and step: "update_phase_amount fs soln off x u = Inr u'"
    obtain a b a' b' where u: "u = (a, b)" "u' = (a', b')" by (cases u; cases u') auto
    from update_phase_amount_result [OF step [unfolded u]] obtain w where
      w: "fs ! x < length a" "0 \<le> w" "w \<le> 1" "a' = a[fs ! x := w]" by blast
    show "?P (us @ [x]) u'"
    proof
      fix k
      assume "k \<in> set (us @ [x])"
      then consider "fs ! k = fs ! x" | "fs ! k \<noteq> fs ! x" "k \<in> set us" by auto
      then show "0 \<le> fst u' ! (fs ! k) \<and> fst u' ! (fs ! k) \<le> 1"
      proof cases
        case 1
        with w u show ?thesis by simp
      next
        case 2
        with inv w u show ?thesis by simp
      qed
    qed
  qed
  then have "\<forall>k < length fs. 0 \<le> pa' ! (fs ! k) \<and> pa' ! (fs ! k) \<le> 1" by simp
  then show ?thesis
    by (auto simp: list_all_iff in_set_conv_nth)
qed

lemma extract_phase_amounts_clipped:
  assumes "extract_equilibrium_solution mu pa dsv fm fsv fs soln lsc lpac dl
             = Inr (mu', pa', dsv', lsc', lpac', dl')"
  shows "list_all (\<lambda>i. 0 \<le> pa' ! i \<and> pa' ! i \<le> 1) fs"
proof -
  from assms obtain l' where
    "for_each [0..<length fs] (update_phase_amount fs soln (length fm)) (pa, lpac)
       = Inr (pa', l')"
    by (auto simp: extract_equilibrium_solution_def Let_def and_then_eq_Inr)
  then show ?thesis by (rule phase_amounts_clipped)
qed

lemma MIN_SITE_FRACTION_le_1: "MIN_SITE_FRACTION \<le> 1"
  by (simp add: MIN_SITE_FRACTION_def)

lemma clip_site_fractions_range:
  assumes "clip_site_fractions old_y delta_y = Inr new_y"
  shows "list_all (\<lambda>y. MIN_SITE_FRACTION \<le> y \<and> y \<le> 1) new_y"
proof -
  from assms obtain moved where
    "new_y = map (\<lambda>y. if y > 1 then 1 else y)
               (map (\<lambda>y. if y < MIN_SITE_FRACTION then MIN_SITE_FRACTION else y) moved)"
    by (auto simp: clip_site_fractions_def and_then_eq_Inr)
  then show ?thesis
    using MIN_SITE_FRACTION_le_1 by (auto simp: list_all_iff)
qed

lemma np_assign_range:
  assumes "np_assign n ys = Inr stored" and "list_all P ys"
  shows "list_all P stored \<and> length stored = n"
  using assms
  by (cases ys) (auto simp: np_assign_def list_all_iff split: if_splits)

lemma update_internal_dof_result:
  assumes "update_internal_dof la c s (idx, compset) (dl, v) = Inr (dl', v')"
  shows "idx < length dl
    \<and> (\<exists>x'. dl' = dl[idx := x']
          \<and> list_all (\<lambda>y. MIN_SITE_FRACTION \<le> y \<and> y \<le> 1) (drop (num_statevars c) x')
          \<and> for_each [0..<num_components c]
                (accumulate_mass (phase_record compset) x' (phase_amt s) idx)
                (all_phase_amounts v, current_elemental_amounts v)
              = Inr (all_phase_amounts v', current_elemental_amounts v'))"
proof -
  from assms obtain x delta_y new_y stored where
    x: "get1 dl idx = Inr x"
    and clip: "clip_site_fractions (drop (num_statevars c) x) delta_y = Inr new_y"
    and assign: "np_assign (length (drop (num_statevars c) x)) new_y = Inr stored"
    and dl': "dl' = dl[idx := take (num_statevars c) x @ stored]"
    and acc: "for_each [0..<num_components c]
                (accumulate_mass (phase_record compset) (take (num_statevars c) x @ stored)
                   (phase_amt s) idx)
                (all_phase_amounts v, current_elemental_amounts v)
              = Inr (all_phase_amounts v', current_elemental_amounts v')"
    by (auto simp: update_internal_dof_def Let_def and_then_eq_Inr split: option.splits)
  from x have "idx < length dl" by (auto simp: get1_def split: if_splits)
  moreover from np_assign_range [OF assign clip_site_fractions_range [OF clip]]
  have "list_all (\<lambda>y. MIN_SITE_FRACTION \<le> y \<and> y \<le> 1) stored" by simp
  then have "list_all (\<lambda>y. MIN_SITE_FRACTION \<le> y \<and> y \<le> 1)
               (drop (num_statevars c) (take (num_statevars c) x @ stored))"
    by (auto simp: list_all_iff dest: in_set_dropD)
  ultimately show ?thesis using dl' acc by blast
qed

lemma enumerate_split_fresh:
  assumes "enumerate 0 cs = us @ (idx, compset) # vs"
  shows "idx \<notin> fst ` set us"
proof -
  have "distinct (map fst (enumerate 0 cs))" by simp
  with assms show ?thesis by auto
qed

lemma site_fractions_clipped:
  assumes "internal_dof_step la c s = Inr (dl, v)"
    and "idx < length (compsets s)"
  shows "list_all (\<lambda>y. MIN_SITE_FRACTION \<le> y \<and> y \<le> 1) (drop (num_statevars c) (dl ! idx))"
proof -
  let ?ok = "list_all (\<lambda>y. MIN_SITE_FRACTION \<le> y \<and> y \<le> 1)"
  let ?P = "\<lambda>us u. length (fst u) = length (dofs s)
              \<and> (\<forall>i \<in> fst ` set us. ?ok (drop (num_statevars c) (fst u ! i)))"
  note run = assms(1) [unfolded internal_dof_step_def]
  have "?P (enumerate 0 (compsets s)) (dl, v)"
  proof (rule for_each_prefix_invariant [OF run, of ?P])
    show "?P [] (dofs s, \<lparr>current_elemental_amounts = zeros (length (chemical_potentials s)),
         all_phase_energies = zeros (length (compsets s)),
         all_phase_amounts = zeros2 (length (compsets s)) (length (chemical_potentials s)),
         largest_internal_dof_change = 0,
         largest_internal_cons_max_residual = 0\<rparr>)" by simp
  next
    fix us x vs u u'
    assume split: "enumerate 0 (compsets s) = us @ x # vs" and inv: "?P us u"
      and step: "update_internal_dof la c s x u = Inr u'"
    obtain i cs_i where x: "x = (i, cs_i)" by (cases x)
    obtain d w d' w' where u: "u = (d, w)" "u' = (d', w')" by (cases u; cases u') auto
    from update_internal_dof_result [OF step [unfolded x u]] obtain x' where
      r: "i < length d" "d' = d[i := x']" "?ok (drop (num_statevars c) x')" by blast
    from inv u r show "?P (us @ [x]) u'"
      by (auto simp: x nth_list_update)
  qed
  moreover from assms(2) have "idx \<in> fst ` set (enumerate 0 (compsets s))"
    by (simp add: image_iff in_set_enumerate_eq Bex_def)
  ultimately show ?thesis by auto
qed


text \<open>
  C5. Every phase amount that \<^verbatim>\<open>extract_equilibrium_solution\<close> writes, those of the
  active set, lies in [0, 1] when the function returns, and after the first step of an
  iteration every internal site fraction of every composition set lies in
  [\<open>MIN_SITE_FRACTION\<close>, 1]. Doubles are reals here: a NaN is not among the values.
\<close>

theorem clipping_invariants:
  "(extract_equilibrium_solution mu pa dsv fm fsv fs soln lsc lpac dl
      = Inr (mu', pa', dsv', lsc', lpac', dl')
    \<longrightarrow> list_all (\<lambda>i. 0 \<le> pa' ! i \<and> pa' ! i \<le> 1) fs)
   \<and> (internal_dof_step la c s = Inr (dl1, v)
    \<longrightarrow> (\<forall>idx < length (compsets s).
           list_all (\<lambda>y. MIN_SITE_FRACTION \<le> y \<and> y \<le> 1)
             (drop (num_statevars c) (dl1 ! idx))))"
proof (intro conjI impI allI)
  assume "extract_equilibrium_solution mu pa dsv fm fsv fs soln lsc lpac dl
      = Inr (mu', pa', dsv', lsc', lpac', dl')"
  then show "list_all (\<lambda>i. 0 \<le> pa' ! i \<and> pa' ! i \<le> 1) fs"
    by (rule extract_phase_amounts_clipped)
next
  fix idx
  assume "internal_dof_step la c s = Inr (dl1, v)" and "idx < length (compsets s)"
  then show "list_all (\<lambda>y. MIN_SITE_FRACTION \<le> y \<and> y \<le> 1)
               (drop (num_statevars c) (dl1 ! idx))"
    by (rule site_fractions_clipped)
qed

text \<open>
  The theorem at a phase amount of 1/2 with the increment 5, clipped to 1, and at a site
  fraction of 1/2 moved to 1.
\<close>

lemma clipped_amount:
  "extract_equilibrium_solution [2] [1 / 2] [0] [0] [] [0] [2, 5] (Fin 0) 0 [[1000, 1]]
     = Inr ([2], [1], [0], Fin 0, 1 / 2, [[1000, 1]])"
  by code_simp

lemma clipped_site_fraction:
  "internal_dof_step exchange_solver (one_component 1)
        (initial_state [pure_compset 1 (1 / 2)] [0] (one_component 1))
   = Inr ([[1000, 1]],
          \<lparr>current_elemental_amounts = [1], all_phase_energies = [2],
           all_phase_amounts = [[1]], largest_internal_dof_change = 1 / 2,
           largest_internal_cons_max_residual = 1 / 2\<rparr>)"
  by code_simp

theorem clipping_invariants_witness:
  "list_all (\<lambda>i. 0 \<le> [1 :: real] ! i \<and> [1 :: real] ! i \<le> 1) [0]
   \<and> list_all (\<lambda>y. MIN_SITE_FRACTION \<le> y \<and> y \<le> 1) (drop 1 ([[1000, 1]] ! 0))"
proof -
  let ?s = "initial_state [pure_compset 1 (1 / 2)] [0] (one_component 1)"
  from clipping_invariants
         [of "[2]" "[1 / 2]" "[0]" "[0]" "[]" "[0]" "[2, 5]" "Fin 0" 0 "[[1000, 1]]"
             "[2]" "[1]" "[0]" "Fin 0" "1 / 2" "[[1000, 1]]"
             exchange_solver "one_component 1" ?s "[[1000, 1]]"]
    clipped_amount clipped_site_fraction
  have "list_all (\<lambda>i. 0 \<le> [1 :: real] ! i \<and> [1 :: real] ! i \<le> 1) [0]"
    and "\<forall>idx < length (compsets ?s).
           list_all (\<lambda>y. MIN_SITE_FRACTION \<le> y \<and> y \<le> 1)
             (drop (num_statevars (one_component 1)) ([[1000, 1]] ! idx))"
    by blast+
  then show ?thesis
    by (simp add: initial_state_def one_component_def)
qed

section \<open>The elemental amounts\<close>

lemma accumulate_mass_result:
  assumes "accumulate_mass pr x pa idx k (am, el) = Inr (am', el')"
  shows "length el' = length el
    \<and> (pa ! idx > 0 \<longrightarrow> k < length el)
    \<and> (\<forall>j < length el. el' ! j =
          el ! j + (if j = k \<and> pa ! idx > 0 then pa ! idx * mass_obj pr x k else 0))"
proof (cases "pa ! idx > 0")
  case True
  from assms obtain amt where "get1 pa idx = Inr amt"
    and rest: "(if amt > 0
         then and_then (add1 el k (amt * mass_obj pr x k)) (\<lambda>el2. Inr (am', el2))
         else Inr (am', el)) = Inr (am', el')"
    by (auto simp: accumulate_mass_def Let_def and_then_eq_Inr split: if_splits)
  then have amt: "amt = pa ! idx" by (auto simp: get1_def split: if_splits)
  with True rest have "add1 el k (pa ! idx * mass_obj pr x k) = Inr el'"
    by (auto simp: and_then_eq_Inr)
  then have "k < length el" and "el' = el[k := el ! k + pa ! idx * mass_obj pr x k]"
    by (auto simp: add1_def split: if_splits)
  with True show ?thesis by (simp add: nth_list_update)
next
  case False
  from assms obtain amt where "get1 pa idx = Inr amt"
    and rest: "(if amt > 0
         then and_then (add1 el k (amt * mass_obj pr x k)) (\<lambda>el2. Inr (am', el2))
         else Inr (am', el)) = Inr (am', el')"
    by (auto simp: accumulate_mass_def Let_def and_then_eq_Inr split: if_splits)
  then have amt: "amt = pa ! idx" by (auto simp: get1_def split: if_splits)
  with False rest have "el' = el" by simp
  with False show ?thesis by simp
qed

lemma accumulate_mass_loop:
  assumes "for_each [0..<n] (accumulate_mass pr x pa idx) (am, el) = Inr (am', el')"
  shows "length el' = length el
    \<and> (\<forall>j < length el. el' ! j =
          el ! j + (if j < n \<and> pa ! idx > 0 then pa ! idx * mass_obj pr x j else 0))"
proof -
  let ?P = "\<lambda>us u. length (snd u) = length el
    \<and> (\<forall>j < length el. snd u ! j =
          el ! j + (if j \<in> set us \<and> pa ! idx > 0 then pa ! idx * mass_obj pr x j else 0))"
  have "?P [0..<n] (am', el')"
  proof (rule for_each_prefix_invariant [OF assms, of ?P])
    show "?P [] (am, el)" by simp
  next
    fix us k vs u u'
    assume split: "[0..<n] = us @ k # vs" and inv: "?P us u"
      and step: "accumulate_mass pr x pa idx k u = Inr u'"
    obtain a e a' e' where u: "u = (a, e)" "u' = (a', e')" by (cases u; cases u') auto
    have "distinct (us @ k # vs)" using split [symmetric] by simp
    then have fresh: "k \<notin> set us" by simp
    from accumulate_mass_result [OF step [unfolded u]] inv u fresh
    show "?P (us @ [k]) u'" by auto
  qed
  then show ?thesis by simp
qed


text \<open>
  C8 (as amended). After the first step of an iteration, the entry of
  \<open>current_elemental_amounts\<close> for a component is the sum of
  \<open>phase_amt[idx] * mass[idx, comp]\<close> over the composition sets whose phase amount is
  positive, with the mass taken at the updated site fractions; the active set plays no
  part in it.
\<close>

theorem elemental_amounts_of_positive_phases:
  assumes "internal_dof_step la c s = Inr (dl, v)"
    and "k < length (chemical_potentials s)"
  shows "current_elemental_amounts v ! k =
           (\<Sum>(idx, compset) \<leftarrow> enumerate 0 (compsets s).
              if k < num_components c \<and> phase_amt s ! idx > 0
              then phase_amt s ! idx * mass_obj (phase_record compset) (dl ! idx) k
              else 0)"
proof -
  define f where "f d = (\<lambda>(idx :: nat, compset :: CompositionSet).
              if k < num_components c \<and> phase_amt s ! idx > 0
              then phase_amt s ! idx * mass_obj (phase_record compset) (d ! idx) k
              else 0)" for d :: "vec list"
  let ?P = "\<lambda>us u. length (current_elemental_amounts (snd u)) = length (chemical_potentials s)
              \<and> current_elemental_amounts (snd u) ! k = sum_list (map (f (fst u)) us)"
  note run = assms(1) [unfolded internal_dof_step_def]
  have "?P (enumerate 0 (compsets s)) (dl, v)"
  proof (rule for_each_prefix_invariant [OF run, of ?P])
    show "?P [] (dofs s, \<lparr>current_elemental_amounts = zeros (length (chemical_potentials s)),
         all_phase_energies = zeros (length (compsets s)),
         all_phase_amounts = zeros2 (length (compsets s)) (length (chemical_potentials s)),
         largest_internal_dof_change = 0,
         largest_internal_cons_max_residual = 0\<rparr>)"
      using assms(2) by (simp add: zeros_def)
  next
    fix us x vs u u'
    assume split: "enumerate 0 (compsets s) = us @ x # vs" and inv: "?P us u"
      and step: "update_internal_dof la c s x u = Inr u'"
    obtain i cs_i where x: "x = (i, cs_i)" by (cases x)
    obtain d w d' w' where u: "u = (d, w)" "u' = (d', w')" by (cases u; cases u') auto
    from update_internal_dof_result [OF step [unfolded x u]] obtain x' where
      r: "i < length d" "d' = d[i := x']"
      and acc: "for_each [0..<num_components c]
                (accumulate_mass (phase_record cs_i) x' (phase_amt s) i)
                (all_phase_amounts w, current_elemental_amounts w)
              = Inr (all_phase_amounts w', current_elemental_amounts w')"
      by blast
    from accumulate_mass_loop [OF acc] inv u assms(2)
    have len: "length (current_elemental_amounts w') = length (chemical_potentials s)"
      and new: "current_elemental_amounts w' ! k =
          current_elemental_amounts w ! k
            + (if k < num_components c \<and> phase_amt s ! i > 0
               then phase_amt s ! i * mass_obj (phase_record cs_i) x' k else 0)"
      by simp_all
    from enumerate_split_fresh [OF split [unfolded x]] have fresh: "i \<notin> fst ` set us" .
    have "map (f d') us = map (f d) us"
    proof (rule map_cong [OF refl])
      fix y
      assume "y \<in> set us"
      with fresh have "fst y \<noteq> i" by auto
      with r show "f d' y = f d y"
        by (cases y) (simp add: f_def)
    qed
    then have "sum_list (map (f d') us) = sum_list (map (f d) us)"
      by (simp only:)
    moreover from r have "f d' x = (if k < num_components c \<and> phase_amt s ! i > 0
               then phase_amt s ! i * mass_obj (phase_record cs_i) x' k else 0)"
      by (simp add: f_def x)
    ultimately show "?P (us @ [x]) u'"
      using len new inv u by simp
  qed
  then show ?thesis by (simp add: f_def)
qed

text \<open>
  Two composition sets of the pure phase, with the amounts 1 and 1e-13, of which only the
  first is in the active set.
\<close>

lemma two_phase_first_step:
  "internal_dof_step exchange_solver (one_component 1)
        (initial_state [pure_compset 1 1, trace_amount] [0] (one_component 1))
   = Inr ([[1000, 1], [1000, 1]],
          \<lparr>current_elemental_amounts = [1 + 1 / 10 ^ 13], all_phase_energies = [2, 2],
           all_phase_amounts = [[1], [1]], largest_internal_dof_change = 0,
           largest_internal_cons_max_residual = 0\<rparr>)"
  by code_simp

theorem elemental_amounts_of_positive_phases_witness:
  "[1 + 1 / 10 ^ 13 :: real] ! 0 = 1 * 1 + 1 / 10 ^ 13 * 1"
proof -
  let ?s = "initial_state [pure_compset 1 1, trace_amount] [0] (one_component 1)"
  have "0 < length (chemical_potentials ?s)"
    by (simp add: initial_state_def one_component_def)
  from elemental_amounts_of_positive_phases [OF two_phase_first_step this]
  show ?thesis
    by (simp add: initial_state_def one_component_def pure_compset_def trace_amount_def
          pure_element_def enumerate_eq_zip upt_rec)
qed

text \<open>
  C8 as stated fails there: the accumulated amount is 1 + 1e-13, the contributions of the
  active set alone add up to 1.
\<close>

theorem elemental_amounts_outside_active_set:
  "(case internal_dof_step exchange_solver (one_component 1)
           (initial_state [pure_compset 1 1, trace_amount] [0] (one_component 1)) of
      Inr (dl, v) \<Rightarrow>
        current_elemental_amounts v = [1 + 1 / 10 ^ 13]
        \<and> map (\<lambda>k. \<Sum>idx \<leftarrow> [0]. map NP [pure_compset 1 1, trace_amount] ! idx
                                    * all_phase_amounts v ! idx ! k) [0..<1] = [1]
    | Inl e \<Rightarrow> False)"
  by code_simp

section \<open>The row of the phase energy\<close>

text \<open>
  C1. The claim asks for the energy of the phase in the row \<open>stable_idx\<close> of the right-hand
  side, the row whose matrix coefficients lines 103 and 110 fill. Lines 172 and 176 write
  it at position \<open>idx\<close>. With two composition sets of which only the second is stable,
  \<open>idx = 1\<close> and \<open>stable_idx = 0\<close>: the matrix row 0 receives the mass of the phase while
  the energy 2 lands in entry 1 of the right-hand side, the row of the system amount, and
  entry 0 stays zero. The second equation is the same call made by
  \<^verbatim>\<open>fill_equilibrium_system\<close>.
\<close>

theorem phase_energy_written_at_idx:
  "fill_equilibrium_system_for_phase (zeros2 2 2) (zeros 2) 2 [0, 0] [[0, 0], [0, 0]] [1]
       [[0, 1]] [[0]] [2] [0, 1] [0] [] [1] [] [] [] 1 0 1
     = Inr ([[1, 0], [0, 1]], [0, 2])
   \<and> global_system exchange_solver (one_component 1)
       (initial_state [pure_compset 0 1, pure_compset 1 1] [1] (one_component 1))
       [[1000, 1], [1000, 1]]
       \<lparr>current_elemental_amounts = [1], all_phase_energies = [2, 2],
        all_phase_amounts = [[1], [1]], largest_internal_dof_change = 0,
        largest_internal_cons_max_residual = 0\<rparr>
     = Inr ([[1, 0], [0, 1]], [0, 2], 0)"
  by code_simp

section \<open>Relative changes and division by zero\<close>

lemma py_max_not_nan: "t \<noteq> NaN \<Longrightarrow> py_max t b \<noteq> NaN"
  by (cases t; cases b) (auto simp: py_max_def)

lemma py_max_PInf_left: "py_max PInf b = PInf"
  by (simp add: py_max_def)

lemma py_max_PInf_right: "t \<noteq> NaN \<Longrightarrow> py_max t PInf = PInf"
  by (cases t) (auto simp: py_max_def)

lemma py_max_NaN_right: "py_max t NaN = t"
  by (cases t) (auto simp: py_max_def)

lemma update_chemical_potential_result:
  assumes "update_chemical_potential fm soln i (m, t) = Inr (m', t')"
  shows "fm ! i < length m \<and> i < length soln \<and> m' = m[fm ! i := soln ! i]
       \<and> t' = py_max t (np_abs_div (soln ! i - m ! (fm ! i)) (m ! (fm ! i)))"
  using assms
  by (auto simp: update_chemical_potential_def Let_def and_then_eq_Inr get1_def set1_def
           split: if_splits)

lemma chemical_potential_tracker:
  assumes run: "for_each [0..<length fm] (update_chemical_potential fm soln) (mu, lsc)
                  = Inr (mu', lsc')"
    and "lsc \<noteq> NaN" and "distinct fm"
  shows "lsc' \<noteq> NaN
       \<and> ((\<exists>k < length fm. mu ! (fm ! k) = 0 \<and> soln ! k \<noteq> 0) \<longrightarrow> lsc' = PInf)"
proof -
  let ?P = "\<lambda>us u. (\<forall>k < length fm. k \<notin> set us \<longrightarrow> fst u ! (fm ! k) = mu ! (fm ! k))
              \<and> snd u \<noteq> NaN
              \<and> ((\<exists>k \<in> set us. mu ! (fm ! k) = 0 \<and> soln ! k \<noteq> 0) \<longrightarrow> snd u = PInf)"
  have "?P [0..<length fm] (mu', lsc')"
  proof (rule for_each_prefix_invariant [OF run, of ?P])
    show "?P [] (mu, lsc)" using assms(2) by simp
  next
    fix us x vs u u'
    assume split: "[0..<length fm] = us @ x # vs" and inv: "?P us u"
      and step: "update_chemical_potential fm soln x u = Inr u'"
    obtain m t m' t' where u: "u = (m, t)" "u' = (m', t')" by (cases u; cases u') auto
    have "distinct (us @ x # vs)" using split [symmetric] by simp
    then have fresh: "x \<notin> set us" by simp
    have "x \<in> set [0..<length fm]" unfolding split by simp
    then have x: "x < length fm" by simp
    from update_chemical_potential_result [OF step [unfolded u]]
    have r: "fm ! x < length m" "m' = m[fm ! x := soln ! x]"
      "t' = py_max t (np_abs_div (soln ! x - m ! (fm ! x)) (m ! (fm ! x)))" by simp_all
    from inv u x fresh have old: "m ! (fm ! x) = mu ! (fm ! x)" by simp
    have untouched: "m' ! (fm ! k) = mu ! (fm ! k)" if "k < length fm" "k \<notin> set (us @ [x])" for k
    proof -
      from that have "k \<noteq> x" "k \<notin> set us" by simp_all
      with that x \<open>distinct fm\<close> have "fm ! k \<noteq> fm ! x"
        by (simp add: nth_eq_iff_index_eq)
      with r inv u that \<open>k \<notin> set us\<close> show ?thesis by simp
    qed
    from inv u have "t \<noteq> NaN" by simp
    then have notnan: "t' \<noteq> NaN" unfolding r by (rule py_max_not_nan)
    have inf: "t' = PInf" if "\<exists>k \<in> set (us @ [x]). mu ! (fm ! k) = 0 \<and> soln ! k \<noteq> 0"
    proof (cases "\<exists>k \<in> set us. mu ! (fm ! k) = 0 \<and> soln ! k \<noteq> 0")
      case True
      with inv u have "t = PInf" by simp
      then show ?thesis unfolding r by (simp add: py_max_PInf_left)
    next
      case False
      with that have "mu ! (fm ! x) = 0" "soln ! x \<noteq> 0" by auto
      with old have "np_abs_div (soln ! x - m ! (fm ! x)) (m ! (fm ! x)) = PInf"
        by (simp add: np_abs_div_def)
      with \<open>t \<noteq> NaN\<close> show ?thesis unfolding r by (simp add: py_max_PInf_right)
    qed
    from untouched notnan inf u show "?P (us @ [x]) u'" by simp
  qed
  then show ?thesis by auto
qed

lemma percent_statevar_changes_masked:
  assumes "percent_statevar_changes d x = Inr ps"
  shows "list_all (\<lambda>p. \<not> np_isnan p) ps"
proof -
  from assms obtain changes where
    "ps = map (\<lambda>p. if np_isnan p then Fin 0 else p) changes"
    by (auto simp: percent_statevar_changes_def and_then_eq_Inr)
  then show ?thesis by (auto simp: list_all_iff)
qed

lemma percent_statevar_changes_zero:
  assumes "percent_statevar_changes d x = Inr ps"
    and "length d = length x" and "j < length d" and "d ! j = 0" and "x ! j = 0"
  shows "ps ! j = Fin 0"
  using assms
  by (auto simp: percent_statevar_changes_def and_then_eq_Inr np_elementwise_def np_abs_div_def)


text \<open>
  C10 (as amended). The relative change of a free chemical potential whose current value
  is zero is computed by an unguarded division and is not finite: it is infinite when the
  new value is not zero, and then the tracker \<open>largest_statevar_change\<close> ends infinite; it
  is a NaN when the new value is zero as well, and then Python's \<open>max\<close> drops it and the
  tracker keeps its value. The relative changes of the state variables have their NaN
  entries replaced by zero, and the tracker is never a NaN. The free chemical potentials
  are distinct components, and the tracker starts from a number, as line 322 has it.
\<close>

theorem unguarded_relative_change:
  assumes "extract_equilibrium_solution mu pa dsv fm fsv fs soln lsc lpac dl
             = Inr (mu', pa', dsv', lsc', lpac', dl')"
    and "lsc \<noteq> NaN" and "distinct fm" and "k < length fm" and "mu ! (fm ! k) = 0"
  shows "np_abs_div (soln ! k - mu ! (fm ! k)) (mu ! (fm ! k))
           = (if soln ! k = 0 then NaN else PInf)
       \<and> (soln ! k \<noteq> 0 \<longrightarrow> lsc' = PInf)
       \<and> (soln ! k = 0 \<longrightarrow>
            (\<forall>t. py_max t (np_abs_div (soln ! k - mu ! (fm ! k)) (mu ! (fm ! k))) = t))
       \<and> lsc' \<noteq> NaN
       \<and> (\<exists>ps. percent_statevar_changes dsv' (take (length dsv) (dl ! 0)) = Inr ps
              \<and> list_all (\<lambda>p. \<not> np_isnan p) ps
              \<and> (\<forall>j. length dsv' = length (take (length dsv) (dl ! 0)) \<and> j < length dsv'
                       \<and> dsv' ! j = 0 \<and> dl ! 0 ! j = 0
                     \<longrightarrow> ps ! j = Fin 0))"
proof -
  from assms(1) obtain mu1 lsc1 ps largest where
    loop: "for_each [0..<length fm] (update_chemical_potential fm soln) (mu, lsc)
             = Inr (mu1, lsc1)"
    and ps: "percent_statevar_changes dsv' (take (length dsv) (dl ! 0)) = Inr ps"
    and lsc': "lsc' = py_max lsc1 largest"
    by (auto simp: extract_equilibrium_solution_def Let_def and_then_eq_Inr get1_def
             split: if_splits)
  from chemical_potential_tracker [OF loop assms(2) assms(3)]
  have notnan: "lsc1 \<noteq> NaN"
    and inf: "(\<exists>k < length fm. mu ! (fm ! k) = 0 \<and> soln ! k \<noteq> 0) \<longrightarrow> lsc1 = PInf"
    by simp_all
  have change: "np_abs_div (soln ! k - mu ! (fm ! k)) (mu ! (fm ! k))
           = (if soln ! k = 0 then NaN else PInf)"
    using assms(5) by (simp add: np_abs_div_def)
  have "lsc' = PInf" if "soln ! k \<noteq> 0"
  proof -
    from that assms(4) assms(5) inf have "lsc1 = PInf" by blast
    then show ?thesis unfolding lsc' by (simp add: py_max_PInf_left)
  qed
  moreover have "py_max t (np_abs_div (soln ! k - mu ! (fm ! k)) (mu ! (fm ! k))) = t"
    if "soln ! k = 0" for t
    using that change by (simp add: py_max_NaN_right)
  moreover from notnan have "lsc' \<noteq> NaN" unfolding lsc' by (rule py_max_not_nan)
  moreover have "ps ! j = Fin 0"
    if "length dsv' = length (take (length dsv) (dl ! 0)) \<and> j < length dsv'
          \<and> dsv' ! j = 0 \<and> dl ! 0 ! j = 0" for j
  proof -
    from that have "j < length dsv" by (auto simp: min_def split: if_splits)
    then have "take (length dsv) (dl ! 0) ! j = dl ! 0 ! j" by simp
    with that have "take (length dsv) (dl ! 0) ! j = 0" by simp
    with that show ?thesis
      using percent_statevar_changes_zero [OF ps, of j]
      by (auto simp: min_def split: if_splits)
  qed
  moreover note change percent_statevar_changes_masked [OF ps] ps
  ultimately show ?thesis by blast
qed

text \<open>The theorem at a chemical potential that moves from 0 to 3.\<close>

lemma infinite_change:
  "extract_equilibrium_solution [0] [1] [0] [0] [] [0] [3, 0] (Fin 0) 0 [[1000, 1]]
     = Inr ([3], [1], [0], PInf, 0, [[1000, 1]])"
  by code_simp

theorem unguarded_relative_change_witness:
  "np_abs_div (3 - 0) 0 = PInf \<and> PInf \<noteq> NaN
   \<and> percent_statevar_changes [0] [1000] = Inr [Fin 0]"
proof -
  have "(Fin 0 :: npfloat) \<noteq> NaN" "distinct [0 :: nat]" "(0 :: nat) < length [0 :: nat]"
    "[0 :: real] ! ([0 :: nat] ! 0) = 0"
    by simp_all
  from unguarded_relative_change [OF infinite_change this]
  have "np_abs_div ([3, 0] ! 0 - [0] ! ([0 :: nat] ! 0)) ([0] ! ([0 :: nat] ! 0))
           = (if [3, 0 :: real] ! 0 = 0 then NaN else PInf)"
    and "PInf \<noteq> NaN"
    by blast+
  moreover have "percent_statevar_changes [0] [1000] = Inr [Fin 0]"
    by (simp add: percent_statevar_changes_def np_elementwise_def np_abs_div_def)
  ultimately show ?thesis by simp
qed

text \<open>
  C10 as stated fails for a chemical potential that is zero and stays zero: the tracker
  ends at the finite value 0.
\<close>

theorem zero_over_zero_leaves_tracker:
  "extract_equilibrium_solution [0] [1] [0] [0] [] [0] [0, 0] (Fin 0) 0 [[1000, 1]]
     = Inr ([0], [1], [0], Fin 0, 0, [[1000, 1]])"
  by code_simp

end
